theory Spec2Isabelle
  imports Main
begin

section \<open>Python values used by \<open>src/app.py\<close>\<close>

text \<open>
  Text is a list of characters; a character stands for a code point below 256. The string
  methods the program uses (\<open>strip\<close>, \<open>lower\<close>, \<open>startswith\<close>, \<open>endswith\<close>, \<open>in\<close>,
  \<open>replace(old, "", 1)\<close>, \<open>split("|", 1)\<close>, slicing) are modelled on that range as
  Python defines them.
\<close>

type_synonym bytes = string

definition isspace :: "char \<Rightarrow> bool" where
  \<comment> \<open>\<open>str.isspace\<close> on code points below 256: TAB..CR, FS..US, space, NEL, NBSP.\<close>
  "isspace c =
     (let n = (of_char c :: nat)
      in (9 \<le> n \<and> n \<le> 13) \<or> (28 \<le> n \<and> n \<le> 32) \<or> n = 133 \<or> n = 160)"

definition lower_char :: "char \<Rightarrow> char" where
  \<comment> \<open>\<open>str.lower\<close> on one code point below 256: A..Z and the Latin-1 capitals but the
      multiplication sign move up by 32.\<close>
  "lower_char c =
     (let n = (of_char c :: nat)
      in if (65 \<le> n \<and> n \<le> 90) \<or> (192 \<le> n \<and> n \<le> 214) \<or> (216 \<le> n \<and> n \<le> 222)
         then char_of (n + 32) else c)"

definition lower :: "string \<Rightarrow> string" where
  "lower s = map lower_char s"

definition lstrip :: "string \<Rightarrow> string" where
  "lstrip s = dropWhile isspace s"

definition rstrip :: "string \<Rightarrow> string" where
  "rstrip s = rev (dropWhile isspace (rev s))"

definition strip :: "string \<Rightarrow> string" where
  "strip s = rstrip (lstrip s)"

definition startswith :: "string \<Rightarrow> string \<Rightarrow> bool" where
  \<comment> \<open>\<open>s.startswith(p)\<close>\<close>
  "startswith s p = (take (length p) s = p)"

definition endswith :: "string \<Rightarrow> string \<Rightarrow> bool" where
  \<comment> \<open>\<open>s.endswith(p)\<close>\<close>
  "endswith s p = (length p \<le> length s \<and> drop (length s - length p) s = p)"

fun contains :: "string \<Rightarrow> string \<Rightarrow> bool" where
  \<comment> \<open>\<open>sub in s\<close>, written \<open>contains s sub\<close>\<close>
  "contains [] sub = (sub = [])"
| "contains (c # cs) sub = (startswith (c # cs) sub \<or> contains cs sub)"

fun replace_first :: "string \<Rightarrow> string \<Rightarrow> string" where
  \<comment> \<open>\<open>s.replace(old, "", 1)\<close>, written \<open>replace_first s old\<close>\<close>
  "replace_first [] old = []"
| "replace_first (c # cs) old =
     (if startswith (c # cs) old then drop (length old) (c # cs)
      else c # replace_first cs old)"

definition truthy :: "string option \<Rightarrow> bool" where
  \<comment> \<open>Python truth of a value that is \<open>None\<close> or a string\<close>
  "truthy v = (case v of None \<Rightarrow> False | Some s \<Rightarrow> s \<noteq> [])"

definition py_or :: "string option \<Rightarrow> string option \<Rightarrow> string option" where
  \<comment> \<open>\<open>a or b\<close>\<close>
  "py_or a b = (if truthy a then a else b)"

definition or_empty :: "string option \<Rightarrow> string" where
  \<comment> \<open>\<open>a or ""\<close>\<close>
  "or_empty a = (case a of None \<Rightarrow> [] | Some s \<Rightarrow> s)"

definition fmt :: "string option \<Rightarrow> string" where
  \<comment> \<open>how an f-string prints a value that is \<open>None\<close> or a string\<close>
  "fmt v = (case v of None \<Rightarrow> ''None'' | Some s \<Rightarrow> s)"


section \<open>Collaborators, calls and state\<close>

text \<open>
  \<open>requests\<close>, the Slack client and the \<open>rag\<close> module are outside the program. Each of
  their operations is a field of the record \<open>collaborators\<close>: what the operation answers
  for given arguments, an exception (\<open>Inl\<close>) or a value (\<open>Inr\<close>). Every call the program
  makes is appended to the trace of the state, with a flag telling whether it returned
  normally. \<open>path_suffix\<close> stands for \<open>pathlib.Path(name).suffix\<close> and \<open>json_issue\<close> for
  reading \<open>number\<close> and \<open>html_url\<close> from the JSON body; both belong to libraries and are
  parameters here. Logging and \<open>print\<close> are left out.
\<close>

datatype exn =
    KeyError string
  | HTTPError nat
  | GotHTML string
  | MissingConfiguration
  | Raised string

type_synonym headers = "(string \<times> string) list"

record response =
  status_code :: nat
  resp_headers :: headers
  resp_url :: string
  resp_content :: bytes

record file_obj =
  url_private_download :: "string option"
  url_private :: "string option"
  file_name :: "string option"
  file_title :: "string option"

record slack_user =
  display_name :: "string option"
  real_name :: "string option"

datatype reply =
    DeletedAll
  | Usage
  | CreatedIssue nat string
  | FailedCreate exn
  | NoDownloadUrl string
  | Unsupported string
  | Saved string nat
  | FailedProcess string exn
  | Answer string
  | ErrorAnswering exn

datatype call =
    AuthTest
  | DeleteAllEmbeddings
  | PostMessage "string option" "string option" reply
  | HttpGet string headers bool nat
  | HttpPost string headers string string nat
  | FilesInfo string
  | WriteBytes string bytes
  | UsersInfo string
  | IndexFile string bytes file_obj "string option" "string option"
  | AnswerQuery string "string option" nat

record collaborators =
  auth_test :: "exn + string"
  delete_all_embeddings :: "exn + nat"
  chat_postMessage :: "string option \<Rightarrow> string option \<Rightarrow> reply \<Rightarrow> exn + unit"
  requests_get :: "string \<Rightarrow> headers \<Rightarrow> bool \<Rightarrow> nat \<Rightarrow> exn + response"
  requests_post :: "string \<Rightarrow> headers \<Rightarrow> string \<Rightarrow> string \<Rightarrow> nat \<Rightarrow> exn + response"
  json_issue :: "bytes \<Rightarrow> exn + nat \<times> string"
  files_info :: "string \<Rightarrow> exn + file_obj"
  path_suffix :: "string \<Rightarrow> string"
  write_bytes :: "string \<Rightarrow> bytes \<Rightarrow> exn + unit"
  users_info :: "string \<Rightarrow> exn + slack_user"
  index_slack_file_bytes ::
    "bytes \<Rightarrow> file_obj \<Rightarrow> string option \<Rightarrow> string option \<Rightarrow> exn + string list"
  answer_query :: "string \<Rightarrow> string option \<Rightarrow> nat \<Rightarrow> exn + string"

record config =
  BOT_TOKEN :: string
  GITHUB_TOKEN :: "string option"
  GITHUB_OWNER :: "string option"
  GITHUB_REPO :: "string option"

record state =
  BOT_USER_ID :: "string option"
  INDEXED_FILE_IDS :: "string set"
  trace :: "(call \<times> bool) list"

definition returned :: "exn + 'a \<Rightarrow> bool" where
  "returned r = (case r of Inl _ \<Rightarrow> False | Inr _ \<Rightarrow> True)"

definition perform :: "call \<Rightarrow> exn + 'a \<Rightarrow> state \<Rightarrow> (exn + 'a) \<times> state" where
  \<comment> \<open>make the call \<open>c\<close>, whose answer is \<open>r\<close>, and log it\<close>
  "perform c r s = (r, s\<lparr>trace := trace s @ [(c, returned r)]\<rparr>)"


section \<open>\<open>download_slack_file\<close>\<close>

definition HEADERS :: "config \<Rightarrow> headers" where
  "HEADERS cfg = [(''Authorization'', ''Bearer '' @ BOT_TOKEN cfg)]"

definition header_get :: "headers \<Rightarrow> string \<Rightarrow> string option" where
  \<comment> \<open>\<open>r.headers.get(k)\<close>: the header dictionary of \<open>requests\<close> compares names without case;
      a header name is taken to occur once\<close>
  "header_get hs k = map_of (map (\<lambda>(n, v). (lower n, v)) hs) (lower k)"

definition header_in :: "headers \<Rightarrow> string \<Rightarrow> bool" where
  \<comment> \<open>\<open>k in r.headers\<close>\<close>
  "header_in hs k = (header_get hs k \<noteq> None)"

definition is_redirect_status :: "nat \<Rightarrow> bool" where
  "is_redirect_status n = (n = 301 \<or> n = 302 \<or> n = 303 \<or> n = 307 \<or> n = 308)"

definition raise_for_status :: "response \<Rightarrow> exn + unit" where
  \<comment> \<open>\<open>requests\<close> raises \<open>HTTPError\<close> for a status from 400 to 599\<close>
  "raise_for_status r =
     (if 400 \<le> status_code r \<and> status_code r < 600 then Inl (HTTPError (status_code r))
      else Inr ())"

definition check_response :: "response \<Rightarrow> exn + bytes" where
  \<comment> \<open>lines 34-41\<close>
  "check_response r =
     (case raise_for_status r of
        Inl e \<Rightarrow> Inl e
      | Inr _ \<Rightarrow>
          (let ct = lower (or_empty (header_get (resp_headers r) ''Content-Type''))
           in if contains ct ''text/html'' then Inl (GotHTML (resp_url r))
              else Inr (resp_content r)))"

definition download_slack_file ::
  "config \<Rightarrow> collaborators \<Rightarrow> string \<Rightarrow> state \<Rightarrow> (exn + bytes) \<times> state" where
  \<comment> \<open>lines 25-41\<close>
  "download_slack_file cfg env url s =
     (case perform (HttpGet url (HEADERS cfg) False 60)
             (requests_get env url (HEADERS cfg) False 60) s of
        (Inl e, s1) \<Rightarrow> (Inl e, s1)
      | (Inr r, s1) \<Rightarrow>
          (case (if is_redirect_status (status_code r) \<and> header_in (resp_headers r) ''Location''
                 then (case header_get (resp_headers r) ''Location'' of
                         None \<Rightarrow> (Inl (KeyError ''Location''), s1)
                       | Some loc \<Rightarrow>
                           perform (HttpGet loc (HEADERS cfg) True 60)
                             (requests_get env loc (HEADERS cfg) True 60) s1)
                 else (Inr r, s1)) of
             (Inl e, s2) \<Rightarrow> (Inl e, s2)
           | (Inr r2, s2) \<Rightarrow> (check_response r2, s2)))"


section \<open>\<open>create_github_issue\<close>\<close>

definition issues_url :: "config \<Rightarrow> string" where
  "issues_url cfg =
     ''https://api.github.com/repos/'' @ fmt (GITHUB_OWNER cfg) @ ''/'' @ fmt (GITHUB_REPO cfg)
       @ ''/issues''"

definition github_headers :: "config \<Rightarrow> headers" where
  "github_headers cfg =
     [(''Accept'', ''application/vnd.github+json''),
      (''Authorization'', ''Bearer '' @ fmt (GITHUB_TOKEN cfg)),
      (''X-GitHub-Api-Version'', ''2022-11-28'')]"

definition create_github_issue ::
  "config \<Rightarrow> collaborators \<Rightarrow> string \<Rightarrow> string \<Rightarrow> state \<Rightarrow> (exn + nat \<times> string) \<times> state" where
  "create_github_issue cfg env title body s =
     (if \<not> (truthy (GITHUB_TOKEN cfg) \<and> truthy (GITHUB_OWNER cfg) \<and> truthy (GITHUB_REPO cfg))
      then (Inl MissingConfiguration, s)
      else
        (case perform (HttpPost (issues_url cfg) (github_headers cfg) title body 30)
                (requests_post env (issues_url cfg) (github_headers cfg) title body 30) s of
           (Inl e, s1) \<Rightarrow> (Inl e, s1)
         | (Inr r, s1) \<Rightarrow>
             (case raise_for_status r of
                Inl e \<Rightarrow> (Inl e, s1)
              | Inr _ \<Rightarrow> (json_issue env (resp_content r), s1))))"


section \<open>\<open>on_message\<close>\<close>

text \<open>
  An event is the dictionary the platform delivers. A field is \<open>None\<close> when the key is
  absent; \<open>ev_files\<close> holds \<open>f.get("id")\<close> for each entry of \<open>event.get("files", [])\<close>.
\<close>

record event =
  ev_type :: "string option"
  ev_subtype :: "string option"
  ev_bot_id :: "string option"
  ev_channel :: "string option"
  ev_ts :: "string option"
  ev_thread_ts :: "string option"
  ev_text :: "string option"
  ev_user :: "string option"
  ev_files :: "string option list"

definition and_then ::
  "(exn + 'a) \<times> state \<Rightarrow> ('a \<Rightarrow> state \<Rightarrow> (exn + 'b) \<times> state) \<Rightarrow> (exn + 'b) \<times> state" where
  \<comment> \<open>sequencing: an exception of the first statement skips the rest\<close>
  "and_then m f = (case m of (Inl e, s) \<Rightarrow> (Inl e, s) | (Inr x, s) \<Rightarrow> f x s)"

definition try_except ::
  "(exn + 'a) \<times> state \<Rightarrow> (exn \<Rightarrow> state \<Rightarrow> (exn + unit) \<times> state) \<Rightarrow> (exn + unit) \<times> state" where
  \<comment> \<open>\<open>try: m except Exception as e: h e\<close>\<close>
  "try_except m h = (case m of (Inl e, s) \<Rightarrow> h e s | (Inr x, s) \<Rightarrow> (Inr (), s))"

definition post ::
  "collaborators \<Rightarrow> string option \<Rightarrow> string option \<Rightarrow> reply \<Rightarrow> state \<Rightarrow> (exn + unit) \<times> state" where
  \<comment> \<open>\<open>client.chat_postMessage(channel=ch, thread_ts=th, text=r)\<close>\<close>
  "post env ch th r s = perform (PostMessage ch th r) (chat_postMessage env ch th r) s"

definition resolve_bot_id :: "collaborators \<Rightarrow> state \<Rightarrow> (exn + unit) \<times> state" where
  \<comment> \<open>lines 79-81\<close>
  "resolve_bot_id env s =
     (if \<not> truthy (BOT_USER_ID s)
      then and_then (perform AuthTest (auth_test env) s)
             (\<lambda>uid s1. (Inr (), s1\<lparr>BOT_USER_ID := Some uid\<rparr>))
      else (Inr (), s))"

definition mention :: "string option \<Rightarrow> string" where
  \<comment> \<open>the mention token of lines 91, 102 and 107: the bot id between \<open><@\<close> and \<open>>\<close>\<close>
  "mention b = ''<@'' @ fmt b @ ''>''"

definition is_delete_cmd :: "string \<Rightarrow> string \<Rightarrow> string \<Rightarrow> bool" where
  \<comment> \<open>line 91\<close>
  "is_delete_cmd m raw_text lower_text =
     (contains raw_text m \<and> endswith lower_text ''delete'')"

definition is_issue_cmd :: "string \<Rightarrow> string \<Rightarrow> string \<Rightarrow> bool" where
  \<comment> \<open>lines 99-103\<close>
  "is_issue_cmd m raw_text lower_text =
     (startswith lower_text ''issue''
      \<or> startswith lower_text ''@BoltApp issue''
      \<or> (contains raw_text m \<and> startswith lower_text (m @ '' issue'')))"

definition issue_payload :: "string \<Rightarrow> string \<Rightarrow> string \<Rightarrow> string" where
  \<comment> \<open>lines 104-108\<close>
  "issue_payload m raw_text lower_text =
     (let cmd_text =
            (if startswith lower_text ''@BoltApp issue''
             then strip (drop (length ''@BoltApp'') raw_text)
             else strip (replace_first raw_text m))
      in strip (drop (length ''issue'') cmd_text))"

definition split_title_body :: "string \<Rightarrow> string \<times> string" where
  \<comment> \<open>lines 110-115; \<open>"|" in p\<close> for the one-character string is membership\<close>
  "split_title_body p =
     (if CHR ''|'' \<in> set p
      then (strip (takeWhile (\<lambda>c. c \<noteq> CHR ''|'') p),
            strip (drop 1 (dropWhile (\<lambda>c. c \<noteq> CHR ''|'') p)))
      else (strip p, []))"

definition default_body :: "string \<Rightarrow> string option \<Rightarrow> string" where
  \<comment> \<open>line 126\<close>
  "default_body u channel =
     ''Created via Slack by <@'' @ u @ ''> in channel '' @ fmt channel @ ''.''"

definition delete_handler :: "collaborators \<Rightarrow> event \<Rightarrow> state \<Rightarrow> (exn + unit) \<times> state" where
  \<comment> \<open>lines 92-97\<close>
  "delete_handler env ev s =
     and_then (perform DeleteAllEmbeddings (delete_all_embeddings env) s)
       (\<lambda>remaining s1.
          case ev_channel ev of
            None \<Rightarrow> (Inl (KeyError ''channel''), s1)
          | Some c \<Rightarrow> post env (Some c) None DeletedAll s1)"

definition file_issue ::
  "config \<Rightarrow> collaborators \<Rightarrow> string option \<Rightarrow> string option \<Rightarrow> string \<Rightarrow> string \<Rightarrow> state
     \<Rightarrow> (exn + unit) \<times> state" where
  \<comment> \<open>lines 128-141\<close>
  "file_issue cfg env channel thread_ts title body s =
     try_except
       (and_then (create_github_issue cfg env title body s)
          (\<lambda>(number, url) s1. post env channel thread_ts (CreatedIssue number url) s1))
       (\<lambda>e s2. post env channel thread_ts (FailedCreate e) s2)"

definition issue_handler ::
  "config \<Rightarrow> collaborators \<Rightarrow> event \<Rightarrow> string option \<Rightarrow> string option \<Rightarrow> string \<Rightarrow> state
     \<Rightarrow> (exn + unit) \<times> state" where
  \<comment> \<open>lines 110-142\<close>
  "issue_handler cfg env ev channel thread_ts payload s =
     (case split_title_body payload of
        (title, body0) \<Rightarrow>
          if title = [] then post env channel thread_ts Usage s
          else
            (case (if body0 = []
                   then (case ev_user ev of
                           None \<Rightarrow> Inl (KeyError ''user'')
                         | Some u \<Rightarrow> Inr (default_body u channel))
                   else Inr body0) of
               Inl e \<Rightarrow> (Inl e, s)
             | Inr body \<Rightarrow> file_issue cfg env channel thread_ts title body s))"

definition ALLOWED_EXTENSIONS :: "string set" where
  "ALLOWED_EXTENSIONS = {''.pdf'', ''.docx''}"

definition ingest ::
  "config \<Rightarrow> collaborators \<Rightarrow> event \<Rightarrow> string option \<Rightarrow> string option \<Rightarrow> string \<Rightarrow> file_obj
     \<Rightarrow> string \<Rightarrow> string \<Rightarrow> state \<Rightarrow> (exn + unit) \<times> state" where
  \<comment> \<open>lines 179-195, the body of the \<open>try\<close>. The first argument of \<open>IndexFile\<close> is the
      file id whose ingestion makes the call; missing keys of the user record count as a
      failure of \<open>users_info\<close>.\<close>
  "ingest cfg env ev channel thread_ts file_id fo url name s =
     and_then (download_slack_file cfg env url s)
       (\<lambda>data s1.
          and_then (perform (WriteBytes (file_id @ ''-'' @ name) data)
                      (write_bytes env (file_id @ ''-'' @ name) data) s1)
            (\<lambda>_ s2.
               case ev_user ev of
                 None \<Rightarrow> (Inl (KeyError ''user''), s2)
               | Some user_id \<Rightarrow>
                   and_then (perform (UsersInfo user_id) (users_info env user_id) s2)
                     (\<lambda>result s3.
                        let user_name = py_or (display_name result) (real_name result)
                        in and_then
                             (perform (IndexFile file_id data fo user_name channel)
                                (index_slack_file_bytes env data fo user_name channel) s3)
                             (\<lambda>ids s4.
                                post env channel thread_ts (Saved name (length ids))
                                  (s4\<lparr>INDEXED_FILE_IDS :=
                                        insert file_id (INDEXED_FILE_IDS s4)\<rparr>)))))"

fun upload_loop ::
  "config \<Rightarrow> collaborators \<Rightarrow> event \<Rightarrow> string option \<Rightarrow> string option \<Rightarrow> string option list
     \<Rightarrow> state \<Rightarrow> (exn + unit) option \<times> state" where
  \<comment> \<open>lines 146-203: \<open>Some r\<close> when the handler returned or raised inside the loop,
      \<open>None\<close> when the loop ran to its end\<close>
  "upload_loop cfg env ev channel thread_ts [] s = (None, s)"
| "upload_loop cfg env ev channel thread_ts (f # fs) s =
     (if \<not> truthy f then upload_loop cfg env ev channel thread_ts fs s
      else
        (let file_id = or_empty f
         in if file_id \<in> INDEXED_FILE_IDS s then upload_loop cfg env ev channel thread_ts fs s
            else
              (case perform (FilesInfo file_id) (files_info env file_id) s of
                 (Inl e, s1) \<Rightarrow> (Some (Inl e), s1)
               | (Inr fo, s1) \<Rightarrow>
                   (let url = py_or (url_private_download fo) (url_private fo);
                        name = (if truthy (py_or (file_name fo) (file_title fo))
                                then or_empty (py_or (file_name fo) (file_title fo))
                                else file_id @ ''.bin'')
                    in if \<not> truthy url
                       then (case post env channel thread_ts (NoDownloadUrl name) s1 of
                               (Inl e, s2) \<Rightarrow> (Some (Inl e), s2)
                             | (Inr _, s2) \<Rightarrow> upload_loop cfg env ev channel thread_ts fs s2)
                       else
                         (let ext = lower (path_suffix env name)
                          in if ext \<notin> ALLOWED_EXTENSIONS
                             then (case post env channel thread_ts
                                          (Unsupported (if ext \<noteq> [] then ext else name)) s1 of
                                     (Inl e, s2) \<Rightarrow> (Some (Inl e), s2)
                                   | (Inr _, s2) \<Rightarrow>
                                       upload_loop cfg env ev channel thread_ts fs s2)
                             else
                               (case try_except
                                       (ingest cfg env ev channel thread_ts file_id fo
                                          (or_empty url) name s1)
                                       (\<lambda>e s2. post env channel thread_ts (FailedProcess name e) s2) of
                                  (r, s3) \<Rightarrow> (Some r, s3)))))))"

definition query_handler ::
  "collaborators \<Rightarrow> event \<Rightarrow> string option \<Rightarrow> string option \<Rightarrow> state \<Rightarrow> (exn + unit) \<times> state" where
  \<comment> \<open>lines 206-220\<close>
  "query_handler env ev channel thread_ts s =
     (if ev_type ev = Some ''message'' \<and> \<not> truthy (ev_subtype ev) \<and> truthy (ev_text ev)
      then
        (let text = strip (or_empty (ev_text ev))
         in if text = [] then (Inr (), s)
            else
              try_except
                (and_then (perform (AnswerQuery text channel 4) (answer_query env text channel 4) s)
                   (\<lambda>answer s1. post env channel thread_ts (Answer answer) s1))
                (\<lambda>e s2. post env channel thread_ts (ErrorAnswering e) s2))
      else (Inr (), s))"

definition raw_text :: "event \<Rightarrow> string" where
  \<comment> \<open>line 88\<close>
  "raw_text ev = strip (or_empty (ev_text ev))"

definition reply_thread :: "event \<Rightarrow> string option" where
  \<comment> \<open>line 84\<close>
  "reply_thread ev = py_or (ev_thread_ts ev) (ev_ts ev)"

definition on_message ::
  "config \<Rightarrow> collaborators \<Rightarrow> event \<Rightarrow> state \<Rightarrow> (exn + unit) \<times> state" where
  "on_message cfg env ev s0 =
     (if truthy (ev_bot_id ev) \<or> ev_subtype ev = Some ''bot_message'' then (Inr (), s0)
      else
        and_then (resolve_bot_id env s0)
          (\<lambda>_ s.
             let channel = ev_channel ev;
                 thread_ts = reply_thread ev;
                 subtype = ev_subtype ev;
                 lower_text = lower (raw_text ev);
                 m = mention (BOT_USER_ID s)
             in if is_delete_cmd m (raw_text ev) lower_text then delete_handler env ev s
                else if is_issue_cmd m (raw_text ev) lower_text
                then issue_handler cfg env ev channel thread_ts
                       (issue_payload m (raw_text ev) lower_text) s
                else
                  (case (if subtype = Some ''file_share''
                         then upload_loop cfg env ev channel thread_ts (ev_files ev) s
                         else (None, s)) of
                     (Some r, s1) \<Rightarrow> (r, s1)
                   | (None, s1) \<Rightarrow> query_handler env ev channel thread_ts s1)))"

fun run_events :: "config \<Rightarrow> (collaborators \<times> event) list \<Rightarrow> state \<Rightarrow> state" where
  \<comment> \<open>events handled one after the other, each with the collaborators' answers of its time;
      the state a handler leaves is kept whether it returned or raised\<close>
  "run_events cfg [] s = s"
| "run_events cfg ((env, ev) # rest) s = run_events cfg rest (snd (on_message cfg env ev s))"

definition initial_state :: state where
  \<comment> \<open>lines 20 and 60\<close>
  "initial_state = \<lparr>BOT_USER_ID = None, INDEXED_FILE_IDS = {}, trace = []\<rparr>"


section \<open>Observations on a trace\<close>

fun indexed_ok :: "(call \<times> bool) list \<Rightarrow> string list" where
  \<comment> \<open>the file ids whose submission to the indexing collaborator returned normally\<close>
  "indexed_ok [] = []"
| "indexed_ok ((IndexFile fid d fo u c, True) # t) = fid # indexed_ok t"
| "indexed_ok (x # t) = indexed_ok t"

fun index_submissions :: "(call \<times> bool) list \<Rightarrow> string list" where
  \<comment> \<open>the file ids submitted to the indexing collaborator, whatever the outcome\<close>
  "index_submissions [] = []"
| "index_submissions ((IndexFile fid d fo u c, ok) # t) = fid # index_submissions t"
| "index_submissions (x # t) = index_submissions t"

definition quiet :: "state \<Rightarrow> state \<Rightarrow> bool" where
  \<comment> \<open>from \<open>s\<close> to \<open>s'\<close> the trace grew by calls other than successful indexing, and the
      set of indexed ids is the same\<close>
  "quiet s s' =
     (INDEXED_FILE_IDS s' = INDEXED_FILE_IDS s
      \<and> (\<exists>new. trace s' = trace s @ new \<and> indexed_ok new = []))"

definition ingested :: "state \<Rightarrow> state \<Rightarrow> bool" where
  \<comment> \<open>from \<open>s\<close> to \<open>s'\<close> the set of indexed ids grew by exactly the ids indexed with
      success, each of them new and indexed once\<close>
  "ingested s s' =
     (\<exists>new. trace s' = trace s @ new
        \<and> INDEXED_FILE_IDS s' = INDEXED_FILE_IDS s \<union> set (indexed_ok new)
        \<and> distinct (indexed_ok new)
        \<and> set (indexed_ok new) \<inter> INDEXED_FILE_IDS s = {})"


section \<open>Sample inputs\<close>

definition sample_env :: collaborators where
  \<comment> \<open>collaborators that all answer: the bot is \<open>U1\<close>, every file is \<open>report.pdf\<close>\<close>
  "sample_env =
     \<lparr>auth_test = Inr ''U1'',
      delete_all_embeddings = Inr 0,
      chat_postMessage = (\<lambda>_ _ _. Inr ()),
      requests_get = (\<lambda>url _ _ _. Inr \<lparr>status_code = 200,
         resp_headers = [(''Content-Type'', ''application/pdf'')],
         resp_url = url, resp_content = ''%PDF''\<rparr>),
      requests_post = (\<lambda>url _ _ _ _. Inr \<lparr>status_code = 201, resp_headers = [],
         resp_url = url, resp_content = ''{}''\<rparr>),
      json_issue = (\<lambda>_. Inr (7, ''https://github.com/o/r/issues/7'')),
      files_info = (\<lambda>fid. Inr \<lparr>url_private_download = Some (''https://files.slack.com/'' @ fid),
         url_private = None, file_name = Some ''report.pdf'', file_title = None\<rparr>),
      path_suffix = (\<lambda>n. if CHR ''.'' \<in> set n
                          then CHR ''.'' # rev (takeWhile (\<lambda>c. c \<noteq> CHR ''.'') (rev n))
                          else []),
      write_bytes = (\<lambda>_ _. Inr ()),
      users_info = (\<lambda>_. Inr \<lparr>display_name = Some ''ann'', real_name = Some ''Ann''\<rparr>),
      index_slack_file_bytes = (\<lambda>_ _ _ _. Inr [''c1'', ''c2'']),
      answer_query = (\<lambda>_ _ _. Inr ''42'')\<rparr>"

definition sample_cfg :: config where
  "sample_cfg =
     \<lparr>BOT_TOKEN = ''xoxb'', GITHUB_TOKEN = Some ''ghp'', GITHUB_OWNER = Some ''o'',
      GITHUB_REPO = Some ''r''\<rparr>"

definition message :: "string \<Rightarrow> event" where
  \<comment> \<open>a plain message of user \<open>U9\<close> in channel \<open>C1\<close>\<close>
  "message t =
     \<lparr>ev_type = Some ''message'', ev_subtype = None, ev_bot_id = None,
      ev_channel = Some ''C1'', ev_ts = Some ''1.0'', ev_thread_ts = None,
      ev_text = Some t, ev_user = Some ''U9'', ev_files = []\<rparr>"

definition file_share :: "string list \<Rightarrow> event" where
  \<comment> \<open>user \<open>U9\<close> shares the files with the given ids in channel \<open>C1\<close>\<close>
  "file_share ids =
     \<lparr>ev_type = Some ''message'', ev_subtype = Some ''file_share'', ev_bot_id = None,
      ev_channel = Some ''C1'', ev_ts = Some ''1.0'', ev_thread_ts = None,
      ev_text = Some [], ev_user = Some ''U9'', ev_files = map Some ids\<rparr>"

definition redirect_env :: collaborators where
  \<comment> \<open>the download endpoint answers 302 with a Location when redirects are disabled\<close>
  "redirect_env =
     sample_env\<lparr>requests_get := (\<lambda>url _ allow_redirects _.
        if allow_redirects
        then Inr \<lparr>status_code = 200, resp_headers = [(''content-type'', ''application/pdf'')],
                  resp_url = url, resp_content = ''%PDF''\<rparr>
        else Inr \<lparr>status_code = 302, resp_headers = [(''location'', ''https://cdn.example/F1'')],
                  resp_url = url, resp_content = []\<rparr>)\<rparr>"

definition html_env :: collaborators where
  \<comment> \<open>the download endpoint answers 200 with a login page\<close>
  "html_env =
     sample_env\<lparr>requests_get := (\<lambda>url _ _ _.
        Inr \<lparr>status_code = 200, resp_headers = [(''Content-Type'', ''Text/HTML; charset=utf-8'')],
             resp_url = url, resp_content = ''<html>''\<rparr>)\<rparr>"


definition after_first_upload :: state where
  \<comment> \<open>the state after \<open>sample_env\<close> has ingested the file \<open>F1\<close> from the initial state\<close>
  "after_first_upload =
     \<lparr>BOT_USER_ID = Some ''U1'', INDEXED_FILE_IDS = {''F1''},
      trace = [(AuthTest, True), (FilesInfo ''F1'', True),
               (HttpGet ''https://files.slack.com/F1'' [(''Authorization'', ''Bearer xoxb'')] False 60,
                True),
               (WriteBytes ''F1-report.pdf'' ''%PDF'', True),
               (UsersInfo ''U9'', True),
               (IndexFile ''F1'' ''%PDF''
                  \<lparr>url_private_download = Some ''https://files.slack.com/F1'',
                   url_private = None, file_name = Some ''report.pdf'', file_title = None\<rparr>
                  (Some ''ann'') (Some ''C1''), True),
               (PostMessage (Some ''C1'') (Some ''1.0'') (Saved ''report.pdf'' 2), True)]\<rparr>"


section \<open>The File Retrieval Adapter\<close>

lemma download_first_raises:
  "requests_get env url (HEADERS cfg) False 60 = Inl e \<Longrightarrow>
   download_slack_file cfg env url s
     = (Inl e, s\<lparr>trace := trace s @ [(HttpGet url (HEADERS cfg) False 60, False)]\<rparr>)"
  by (simp add: download_slack_file_def perform_def returned_def)

lemma download_direct:
  "requests_get env url (HEADERS cfg) False 60 = Inr r \<Longrightarrow>
   \<not> (is_redirect_status (status_code r) \<and> header_in (resp_headers r) ''Location'') \<Longrightarrow>
   download_slack_file cfg env url s
     = (check_response r, s\<lparr>trace := trace s @ [(HttpGet url (HEADERS cfg) False 60, True)]\<rparr>)"
  by (auto simp: download_slack_file_def perform_def returned_def)

lemma download_redirected:
  "requests_get env url (HEADERS cfg) False 60 = Inr r \<Longrightarrow>
   is_redirect_status (status_code r) \<Longrightarrow>
   header_get (resp_headers r) ''Location'' = Some loc \<Longrightarrow>
   download_slack_file cfg env url s
     = (case requests_get env loc (HEADERS cfg) True 60 of
          Inl e \<Rightarrow> Inl e | Inr r2 \<Rightarrow> check_response r2,
        s\<lparr>trace := trace s @ [(HttpGet url (HEADERS cfg) False 60, True),
                             (HttpGet loc (HEADERS cfg) True 60,
                              returned (requests_get env loc (HEADERS cfg) True 60))]\<rparr>)"
  by (simp add: download_slack_file_def perform_def returned_def header_in_def
       split: sum.splits)


lemma not_redirect_200: "\<not> is_redirect_status 200"
  by (simp add: is_redirect_status_def)

text \<open>
  C6. The first GET of the File Retrieval Adapter is issued with redirects disabled. When
  the first response has a redirect status (301, 302, 303, 307 or 308) and a Location
  header, exactly one more GET follows, to that location, with the same headers and
  timeout; in every other case, and in particular for status 200, no request follows.
\<close>

theorem download_redirect_protocol:
  "(\<forall>e. requests_get env url (HEADERS cfg) False 60 = Inl e \<longrightarrow>
        trace (snd (download_slack_file cfg env url s))
          = trace s @ [(HttpGet url (HEADERS cfg) False 60, False)])
   \<and> (\<forall>r. requests_get env url (HEADERS cfg) False 60 = Inr r \<longrightarrow>
        (is_redirect_status (status_code r) \<and> header_in (resp_headers r) ''Location'' \<longrightarrow>
           (\<exists>loc. header_get (resp_headers r) ''Location'' = Some loc
              \<and> trace (snd (download_slack_file cfg env url s))
                  = trace s @ [(HttpGet url (HEADERS cfg) False 60, True),
                               (HttpGet loc (HEADERS cfg) True 60,
                                returned (requests_get env loc (HEADERS cfg) True 60))]))
        \<and> (\<not> (is_redirect_status (status_code r) \<and> header_in (resp_headers r) ''Location'') \<longrightarrow>
             trace (snd (download_slack_file cfg env url s))
               = trace s @ [(HttpGet url (HEADERS cfg) False 60, True)])
        \<and> (status_code r = 200 \<longrightarrow>
             trace (snd (download_slack_file cfg env url s))
               = trace s @ [(HttpGet url (HEADERS cfg) False 60, True)]))"
proof (intro conjI allI impI)
  fix e assume "requests_get env url (HEADERS cfg) False 60 = Inl e"
  then show "trace (snd (download_slack_file cfg env url s))
          = trace s @ [(HttpGet url (HEADERS cfg) False 60, False)]"
    by (simp add: download_first_raises)
next
  fix r
  assume r: "requests_get env url (HEADERS cfg) False 60 = Inr r"
    and red: "is_redirect_status (status_code r) \<and> header_in (resp_headers r) ''Location''"
  from red obtain loc where loc: "header_get (resp_headers r) ''Location'' = Some loc"
    unfolding header_in_def by blast
  with r red show "\<exists>loc. header_get (resp_headers r) ''Location'' = Some loc
              \<and> trace (snd (download_slack_file cfg env url s))
                  = trace s @ [(HttpGet url (HEADERS cfg) False 60, True),
                               (HttpGet loc (HEADERS cfg) True 60,
                                returned (requests_get env loc (HEADERS cfg) True 60))]"
    by (simp add: download_redirected [OF r _ loc])
next
  fix r
  assume r: "requests_get env url (HEADERS cfg) False 60 = Inr r"
    and nored: "\<not> (is_redirect_status (status_code r) \<and> header_in (resp_headers r) ''Location'')"
  show "trace (snd (download_slack_file cfg env url s))
               = trace s @ [(HttpGet url (HEADERS cfg) False 60, True)]"
    by (simp add: download_direct [OF r nored])
next
  fix r
  assume r: "requests_get env url (HEADERS cfg) False 60 = Inr r"
    and ok: "status_code r = 200"
  from ok have nored:
    "\<not> (is_redirect_status (status_code r) \<and> header_in (resp_headers r) ''Location'')"
    by (simp add: not_redirect_200)
  show "trace (snd (download_slack_file cfg env url s))
               = trace s @ [(HttpGet url (HEADERS cfg) False 60, True)]"
    by (simp add: download_direct [OF r nored])
qed

lemma check_response_ok:
  "status_code r < 400 \<or> 600 \<le> status_code r \<Longrightarrow>
   check_response r
     = (if contains (lower (or_empty (header_get (resp_headers r) ''Content-Type''))) ''text/html''
        then Inl (GotHTML (resp_url r)) else Inr (resp_content r))"
  by (auto simp: check_response_def raise_for_status_def Let_def)

text \<open>
  C7. When the final response of a retrieval has no error status, the adapter fails with
  the error \<open>GotHTML\<close> if the lower-cased Content-Type header contains \<open>text/html\<close>, and
  returns the body bytes otherwise.
\<close>

theorem download_html_refused:
  assumes final:
    "(requests_get env url (HEADERS cfg) False 60 = Inr r
        \<and> \<not> (is_redirect_status (status_code r) \<and> header_in (resp_headers r) ''Location''))
     \<or> (\<exists>r1 loc. requests_get env url (HEADERS cfg) False 60 = Inr r1
           \<and> is_redirect_status (status_code r1)
           \<and> header_get (resp_headers r1) ''Location'' = Some loc
           \<and> requests_get env loc (HEADERS cfg) True 60 = Inr r)"
    and ok: "status_code r < 400 \<or> 600 \<le> status_code r"
  shows "fst (download_slack_file cfg env url s)
           = (if contains (lower (or_empty (header_get (resp_headers r) ''Content-Type''))) ''text/html''
              then Inl (GotHTML (resp_url r)) else Inr (resp_content r))"
  using final
proof (elim disjE exE conjE)
  assume a: "requests_get env url (HEADERS cfg) False 60 = Inr r"
    and b: "\<not> (is_redirect_status (status_code r) \<and> header_in (resp_headers r) ''Location'')"
  show ?thesis
    by (simp add: download_direct [OF a b] check_response_ok [OF ok])
next
  fix r1 loc
  assume a: "requests_get env url (HEADERS cfg) False 60 = Inr r1"
    and b: "is_redirect_status (status_code r1)"
    and c: "header_get (resp_headers r1) ''Location'' = Some loc"
    and r: "requests_get env loc (HEADERS cfg) True 60 = Inr r"
  show ?thesis
    by (simp add: download_redirected [OF a b c] r check_response_ok [OF ok])
qed


theorem download_redirect_protocol_witness:
  "trace (snd (download_slack_file sample_cfg redirect_env ''https://files.slack.com/F1''
                 initial_state))
     = [(HttpGet ''https://files.slack.com/F1'' [(''Authorization'', ''Bearer xoxb'')] False 60, True),
        (HttpGet ''https://cdn.example/F1'' [(''Authorization'', ''Bearer xoxb'')] True 60, True)]
   \<and> trace (snd (download_slack_file sample_cfg sample_env ''https://files.slack.com/F1''
                   initial_state))
     = [(HttpGet ''https://files.slack.com/F1'' [(''Authorization'', ''Bearer xoxb'')] False 60, True)]
   \<and> trace (snd (download_slack_file sample_cfg
                   (sample_env\<lparr>requests_get := (\<lambda>_ _ _ _. Inl (Raised ''timeout''))\<rparr>)
                   ''https://files.slack.com/F1'' initial_state))
     = [(HttpGet ''https://files.slack.com/F1'' [(''Authorization'', ''Bearer xoxb'')] False 60, False)]"
  using download_redirect_protocol
          [of redirect_env "''https://files.slack.com/F1''" sample_cfg initial_state]
        download_redirect_protocol
          [of sample_env "''https://files.slack.com/F1''" sample_cfg initial_state]
        download_redirect_protocol
          [of "sample_env\<lparr>requests_get := (\<lambda>_ _ _ _. Inl (Raised ''timeout''))\<rparr>"
              "''https://files.slack.com/F1''" sample_cfg initial_state]
  by (simp add: redirect_env_def sample_env_def sample_cfg_def initial_state_def HEADERS_def
        is_redirect_status_def header_in_def header_get_def lower_def lower_char_def char_of_eq_iff
        returned_def)

theorem download_html_refused_witness:
  "fst (download_slack_file sample_cfg html_env ''https://files.slack.com/F1'' initial_state)
     = Inl (GotHTML ''https://files.slack.com/F1'')
   \<and> fst (download_slack_file sample_cfg redirect_env ''https://files.slack.com/F1'' initial_state)
     = Inr ''%PDF''"
  using download_html_refused
          [of html_env "''https://files.slack.com/F1''" sample_cfg
              "\<lparr>status_code = 200, resp_headers = [(''Content-Type'', ''Text/HTML; charset=utf-8'')],
                resp_url = ''https://files.slack.com/F1'', resp_content = ''<html>''\<rparr>"
              initial_state]
        download_html_refused
          [of redirect_env "''https://files.slack.com/F1''" sample_cfg
              "\<lparr>status_code = 200, resp_headers = [(''content-type'', ''application/pdf'')],
                resp_url = ''https://cdn.example/F1'', resp_content = ''%PDF''\<rparr>"
              initial_state]
  by (simp add: html_env_def redirect_env_def sample_env_def sample_cfg_def initial_state_def
        HEADERS_def is_redirect_status_def header_in_def header_get_def lower_def lower_char_def char_of_eq_iff
        or_empty_def startswith_def)



section \<open>The Issue Filing Adapter\<close>

lemma create_missing:
  "\<not> (truthy (GITHUB_TOKEN cfg) \<and> truthy (GITHUB_OWNER cfg) \<and> truthy (GITHUB_REPO cfg)) \<Longrightarrow>
   create_github_issue cfg env title body s = (Inl MissingConfiguration, s)"
  by (simp add: create_github_issue_def)

lemma create_present:
  "truthy (GITHUB_TOKEN cfg) \<Longrightarrow> truthy (GITHUB_OWNER cfg) \<Longrightarrow> truthy (GITHUB_REPO cfg) \<Longrightarrow>
   create_github_issue cfg env title body s
     = (case requests_post env (issues_url cfg) (github_headers cfg) title body 30 of
          Inl e \<Rightarrow> Inl e
        | Inr r \<Rightarrow> (case raise_for_status r of
                     Inl e \<Rightarrow> Inl e
                   | Inr _ \<Rightarrow> json_issue env (resp_content r)),
        s\<lparr>trace := trace s @
             [(HttpPost (issues_url cfg) (github_headers cfg) title body 30,
               returned (requests_post env (issues_url cfg) (github_headers cfg) title body 30))]\<rparr>)"
  by (simp add: create_github_issue_def perform_def split: sum.splits)

lemma truthy_None: "\<not> truthy None"
  by (simp add: truthy_def)

text \<open>
  C5. If any of the three tracker settings (credential, owner, repository name) is absent,
  the Issue Filing Adapter raises the missing-configuration error and makes no call at all;
  an HTTP request is issued only when all three are present, and then it is the one POST.
\<close>

theorem create_github_issue_missing_configuration:
  "(GITHUB_TOKEN cfg = None \<or> GITHUB_OWNER cfg = None \<or> GITHUB_REPO cfg = None
      \<longrightarrow> create_github_issue cfg env title body s = (Inl MissingConfiguration, s))
   \<and> (trace (snd (create_github_issue cfg env title body s)) \<noteq> trace s
      \<longrightarrow> GITHUB_TOKEN cfg \<noteq> None \<and> GITHUB_OWNER cfg \<noteq> None \<and> GITHUB_REPO cfg \<noteq> None)
   \<and> (truthy (GITHUB_TOKEN cfg) \<and> truthy (GITHUB_OWNER cfg) \<and> truthy (GITHUB_REPO cfg)
      \<longrightarrow> trace (snd (create_github_issue cfg env title body s))
          = trace s @ [(HttpPost (issues_url cfg) (github_headers cfg) title body 30,
                        returned (requests_post env (issues_url cfg) (github_headers cfg) title body 30))])"
proof -
  have absent: "create_github_issue cfg env title body s = (Inl MissingConfiguration, s)"
    if "GITHUB_TOKEN cfg = None \<or> GITHUB_OWNER cfg = None \<or> GITHUB_REPO cfg = None"
  proof -
    from that have "\<not> (truthy (GITHUB_TOKEN cfg) \<and> truthy (GITHUB_OWNER cfg)
                        \<and> truthy (GITHUB_REPO cfg))"
      using truthy_None by metis
    then show ?thesis by (rule create_missing)
  qed
  have "GITHUB_TOKEN cfg \<noteq> None \<and> GITHUB_OWNER cfg \<noteq> None \<and> GITHUB_REPO cfg \<noteq> None"
    if "trace (snd (create_github_issue cfg env title body s)) \<noteq> trace s"
  proof (rule ccontr)
    assume "\<not> ?thesis"
    then have "GITHUB_TOKEN cfg = None \<or> GITHUB_OWNER cfg = None \<or> GITHUB_REPO cfg = None"
      by simp
    then have "create_github_issue cfg env title body s = (Inl MissingConfiguration, s)"
      by (rule absent)
    with that show False by simp
  qed
  moreover have "trace (snd (create_github_issue cfg env title body s))
          = trace s @ [(HttpPost (issues_url cfg) (github_headers cfg) title body 30,
                        returned (requests_post env (issues_url cfg) (github_headers cfg) title body 30))]"
    if "truthy (GITHUB_TOKEN cfg) \<and> truthy (GITHUB_OWNER cfg) \<and> truthy (GITHUB_REPO cfg)"
    using that by (simp add: create_present)
  ultimately show ?thesis using absent by blast
qed

theorem create_github_issue_missing_configuration_witness:
  "GITHUB_TOKEN (sample_cfg\<lparr>GITHUB_TOKEN := None\<rparr>) = None
   \<and> create_github_issue (sample_cfg\<lparr>GITHUB_TOKEN := None\<rparr>) sample_env ''T'' ''B'' initial_state
       = (Inl MissingConfiguration, initial_state)
   \<and> trace (snd (create_github_issue sample_cfg sample_env ''T'' ''B'' initial_state))
       = [(HttpPost ''https://api.github.com/repos/o/r/issues''
             [(''Accept'', ''application/vnd.github+json''),
              (''Authorization'', ''Bearer ghp''),
              (''X-GitHub-Api-Version'', ''2022-11-28'')] ''T'' ''B'' 30, True)]"
  using create_github_issue_missing_configuration
          [of "sample_cfg\<lparr>GITHUB_TOKEN := None\<rparr>" sample_env "''T''" "''B''" initial_state]
        create_github_issue_missing_configuration
          [of sample_cfg sample_env "''T''" "''B''" initial_state]
  by (simp add: sample_cfg_def sample_env_def initial_state_def truthy_def issues_url_def
        github_headers_def fmt_def returned_def)



section \<open>The handlers at concrete events\<close>

lemmas eval_defs =
  on_message_def raw_text_def reply_thread_def resolve_bot_id_def and_then_def try_except_def perform_def post_def
  returned_def truthy_def py_or_def or_empty_def fmt_def mention_def
  is_delete_cmd_def is_issue_cmd_def issue_payload_def split_title_body_def default_body_def
  delete_handler_def issue_handler_def file_issue_def query_handler_def ingest_def
  download_slack_file_def check_response_def raise_for_status_def create_github_issue_def
  HEADERS_def header_get_def header_in_def is_redirect_status_def issues_url_def
  github_headers_def ALLOWED_EXTENSIONS_def
  strip_def lstrip_def rstrip_def lower_def lower_char_def isspace_def startswith_def
  endswith_def char_of_eq_iff Let_def
  sample_env_def sample_cfg_def message_def file_share_def initial_state_def

text \<open>
  What each path does when its collaborator raises: the Delete path passes the exception
  on, the FileIssue and Query paths turn it into a reply.
\<close>

lemma delete_handler_raises:
  "delete_all_embeddings env = Inl e \<Longrightarrow>
   delete_handler env ev s
     = (Inl e, s\<lparr>trace := trace s @ [(DeleteAllEmbeddings, False)]\<rparr>)"
  by (simp add: delete_handler_def and_then_def perform_def returned_def)

lemma on_message_delete_raises:
  assumes "\<not> truthy (ev_bot_id ev)" and "ev_subtype ev \<noteq> Some ''bot_message''"
    and "resolve_bot_id env s0 = (Inr (), s)"
    and "is_delete_cmd (mention (BOT_USER_ID s)) (raw_text ev) (lower (raw_text ev))"
    and "delete_all_embeddings env = Inl e"
  shows "on_message cfg env ev s0
           = (Inl e, s\<lparr>trace := trace s @ [(DeleteAllEmbeddings, False)]\<rparr>)"
  using assms(1,2,4)
  by (simp add: on_message_def assms(3) and_then_def Let_def delete_handler_raises [OF assms(5)])

lemma file_issue_catches:
  "create_github_issue cfg env title body s = (Inl e, s1) \<Longrightarrow>
   file_issue cfg env ch th title body s = post env ch th (FailedCreate e) s1"
  by (simp add: file_issue_def try_except_def and_then_def)

lemma query_handler_catches:
  assumes "ev_type ev = Some ''message''" and "\<not> truthy (ev_subtype ev)"
    and "truthy (ev_text ev)" and "raw_text ev \<noteq> []"
    and "answer_query env (raw_text ev) ch 4 = Inl e"
  shows "query_handler env ev ch th s
           = post env ch th (ErrorAnswering e)
               (s\<lparr>trace := trace s @ [(AnswerQuery (raw_text ev) ch 4, False)]\<rparr>)"
  using assms
  by (simp add: query_handler_def raw_text_def Let_def try_except_def and_then_def
        perform_def returned_def)

text \<open>
  C1. The Delete path has no \<open>try\<close>: when the bulk delete of the knowledge base raises
  on the event \<open><@U1> delete\<close>, the exception leaves \<open>on_message\<close> and no reply is
  posted, where the FileIssue, FileUpload and Query paths catch and reply.
\<close>

theorem delete_failure_escapes:
  "on_message sample_cfg (sample_env\<lparr>delete_all_embeddings := Inl (Raised ''store down'')\<rparr>)
     (message ''<@U1> delete'') initial_state
   = (Inl (Raised ''store down''),
      \<lparr>BOT_USER_ID = Some ''U1'', INDEXED_FILE_IDS = {},
       trace = [(AuthTest, True), (DeleteAllEmbeddings, False)]\<rparr>)"
  by (simp add: eval_defs)

text \<open>
  Once a file reaches the \<open>try\<close> of the upload loop, the files after it play no part
  in the result: the \<open>return\<close> of line 203 is inside the loop.
\<close>

lemma upload_loop_ignores_rest:
  assumes "truthy f" and "or_empty f \<notin> INDEXED_FILE_IDS s"
    and "files_info env (or_empty f) = Inr fo"
    and "truthy (py_or (url_private_download fo) (url_private fo))"
    and "lower (path_suffix env
                  (if truthy (py_or (file_name fo) (file_title fo))
                   then or_empty (py_or (file_name fo) (file_title fo))
                   else or_empty f @ ''.bin'')) \<in> ALLOWED_EXTENSIONS"
  shows "upload_loop cfg env ev ch th (f # fs) s = upload_loop cfg env ev ch th [f] s"
  using assms by (simp add: Let_def perform_def split: prod.splits)

text \<open>
  C2. A file share of \<open>F1\<close> and \<open>F2\<close> whose first download raises: the failure of
  \<open>F1\<close> is caught and reported, and the handler returns; \<open>F2\<close> is never looked at.
\<close>

theorem upload_stops_after_first_file:
  "on_message sample_cfg (sample_env\<lparr>requests_get := (\<lambda>_ _ _ _. Inl (Raised ''timeout''))\<rparr>)
     (file_share [''F1'', ''F2'']) initial_state
   = (Inr (),
      \<lparr>BOT_USER_ID = Some ''U1'', INDEXED_FILE_IDS = {},
       trace = [(AuthTest, True), (FilesInfo ''F1'', True),
                (HttpGet ''https://files.slack.com/F1'' [(''Authorization'', ''Bearer xoxb'')] False 60,
                 False),
                (PostMessage (Some ''C1'') (Some ''1.0'')
                   (FailedProcess ''report.pdf'' (Raised ''timeout'')), True)]\<rparr>)"
  by (simp add: eval_defs)

text \<open>
  C3. For the bot \<open>U1\<close>, the message \<open><@U1> issue Fix login\<close> is not filed as an issue:
  the lower-cased text is compared with the mention token as it is, capital letter
  included, so the test fails and the message is answered as a query.
\<close>

theorem mention_issue_not_filed:
  "on_message sample_cfg sample_env (message ''<@U1> issue Fix login'') initial_state
   = (Inr (),
      \<lparr>BOT_USER_ID = Some ''U1'', INDEXED_FILE_IDS = {},
       trace = [(AuthTest, True),
                (AnswerQuery ''<@U1> issue Fix login'' (Some ''C1'') 4, True),
                (PostMessage (Some ''C1'') (Some ''1.0'') (Answer ''42''), True)]\<rparr>)"
  by (simp add: eval_defs)


section \<open>Text operations\<close>

lemma of_char_lower_char:
  "(of_char (lower_char c) :: nat)
     = (if (65 \<le> (of_char c :: nat) \<and> (of_char c :: nat) \<le> 90)
           \<or> (192 \<le> (of_char c :: nat) \<and> (of_char c :: nat) \<le> 214)
           \<or> (216 \<le> (of_char c :: nat) \<and> (of_char c :: nat) \<le> 222)
        then of_char c + 32 else of_char c)"
  by (auto simp: lower_char_def Let_def)

lemma lower_char_space: "isspace c \<Longrightarrow> lower_char c = c"
  by (auto simp: isspace_def lower_char_def Let_def)

lemma lower_char_never_B: "lower_char c \<noteq> CHR ''B''"
proof
  assume "lower_char c = CHR ''B''"
  then have "(of_char (lower_char c) :: nat) = of_char CHR ''B''" by simp
  then show False
    by (simp add: of_char_lower_char split: if_splits)
qed

lemma issue_letter_not_space:
  "lower_char c \<in> set ''issue'' \<Longrightarrow> \<not> isspace c"
proof
  assume a: "lower_char c \<in> set ''issue''" and b: "isspace c"
  from b have "lower_char c = c" by (rule lower_char_space)
  with a have "c \<in> set ''issue''" by simp
  with b show False by (auto simp: isspace_def)
qed

lemma issue_letter_not_lt:
  "lower_char c \<in> set ''issue'' \<Longrightarrow> c \<noteq> CHR ''<''"
  by (auto simp: lower_char_def)

lemma startswith_set: "startswith s p \<Longrightarrow> set p \<subseteq> set s"
  by (metis startswith_def set_take_subset)

lemma never_boltapp: "\<not> startswith (lower raw) ''@BoltApp issue''"
proof
  assume "startswith (lower raw) ''@BoltApp issue''"
  then have "set ''@BoltApp issue'' \<subseteq> set (lower raw)" by (rule startswith_set)
  then have "CHR ''B'' \<in> set (map lower_char raw)" by (simp add: lower_def)
  then obtain c where "lower_char c = CHR ''B''" by auto
  then show False by (simp add: lower_char_never_B)
qed

lemma rstrip_append:
  "rstrip (xs @ ys) = (if \<forall>c\<in>set ys. isspace c then rstrip xs else xs @ rstrip ys)"
  by (simp add: rstrip_def dropWhile_append)

lemma rstrip_idem: "rstrip (rstrip s) = rstrip s"
  by (simp add: rstrip_def)

lemma rstrip_all_space: "\<forall>c\<in>set s. isspace c \<Longrightarrow> rstrip s = []"
  by (simp add: rstrip_def)

lemma lstrip_all_space: "\<forall>c\<in>set s. isspace c \<Longrightarrow> lstrip s = []"
  by (simp add: lstrip_def)

lemma lstrip_rstrip: "lstrip (rstrip s) = rstrip (lstrip s)"
proof (induction s)
  case Nil
  show ?case by (simp add: lstrip_def rstrip_def)
next
  case (Cons c s)
  have split: "rstrip (c # s) = (if \<forall>x\<in>set s. isspace x then rstrip [c] else c # rstrip s)"
    using rstrip_append [of "[c]" s] by simp
  show ?case
  proof (cases "isspace c")
    case True
    then have l: "lstrip (c # s) = lstrip s" by (simp add: lstrip_def)
    show ?thesis
    proof (cases "\<forall>x\<in>set s. isspace x")
      case True
      with \<open>isspace c\<close> show ?thesis
        by (simp add: split l lstrip_all_space) (simp add: rstrip_def lstrip_def)
    next
      case False
      with \<open>isspace c\<close> Cons show ?thesis
        by (auto simp: split l lstrip_def)
    qed
  next
    case False
    then have l: "lstrip (c # s) = c # s" by (simp add: lstrip_def)
    from False show ?thesis
      by (simp add: l split) (simp add: lstrip_def rstrip_def)
  qed
qed

lemma strip_rstrip: "strip (rstrip s) = strip s"
  by (simp add: strip_def lstrip_rstrip rstrip_idem)

lemma strip_idem: "strip (strip s) = strip s"
  by (simp add: strip_def lstrip_rstrip rstrip_idem) (simp add: lstrip_def)

lemma strip_nonspace_prefix:
  assumes "a \<noteq> []" and "\<forall>c\<in>set a. \<not> isspace c"
  shows "strip (a @ y) = a @ rstrip y"
proof -
  from assms obtain c a' where a: "a = c # a'" and c: "\<not> isspace c"
    by (cases a) auto
  from a c have "lstrip (a @ y) = a @ y" by (simp add: lstrip_def)
  moreover from assms have "rstrip a = a"
    by (simp add: rstrip_def) (metis dropWhile_eq_self_iff hd_rev last_in_set rev_rev_ident)
  ultimately show ?thesis
    by (simp add: strip_def rstrip_append rstrip_all_space)
qed

lemma replace_first_skip:
  assumes "m \<noteq> []" and "\<forall>c\<in>set a. c \<noteq> hd m"
  shows "replace_first (a @ x) m = a @ replace_first x m"
  using assms
proof (induction a)
  case Nil
  show ?case by simp
next
  case (Cons c a)
  from Cons.prems have "\<not> startswith (c # a @ x) m"
    by (cases m) (auto simp: startswith_def)
  with Cons show ?case by simp
qed

lemma replace_first_absent: "\<not> contains s m \<Longrightarrow> replace_first s m = s"
  by (induction s) auto

lemma issue_payload_plain:
  assumes "startswith (lower raw) ''issue''"
  shows "issue_payload (mention b) raw (lower raw) = strip (replace_first (drop 5 raw) (mention b))"
proof -
  let ?a = "take 5 raw" and ?x = "drop 5 raw"
  from assms have t: "map lower_char ?a = ''issue''"
    by (simp add: startswith_def lower_def take_map eval_nat_numeral)
  from arg_cong [OF t, of length] have len: "length ?a = 5"
    by simp
  have mem: "lower_char c \<in> set ''issue''" if "c \<in> set ?a" for c
    using that t by (metis image_eqI list.set_map)
  have nosp: "\<forall>c\<in>set ?a. \<not> isspace c"
    using mem issue_letter_not_space by blast
  have nolt: "\<forall>c\<in>set ?a. c \<noteq> hd (mention b)"
    using mem issue_letter_not_lt by (auto simp: mention_def)
  have ne: "?a \<noteq> []" using len by auto
  have raw: "raw = ?a @ ?x" by simp
  have "replace_first raw (mention b) = ?a @ replace_first ?x (mention b)"
    using replace_first_skip [of "mention b" ?a ?x] nolt raw by (simp add: mention_def)
  then have "strip (replace_first raw (mention b)) = ?a @ rstrip (replace_first ?x (mention b))"
    using strip_nonspace_prefix [OF ne nosp] by simp
  then have "drop 5 (strip (replace_first raw (mention b))) = rstrip (replace_first ?x (mention b))"
    using len by simp
  moreover have five: "length ''issue'' = 5" by simp
  have "issue_payload (mention b) raw (lower raw)
          = strip (drop 5 (strip (replace_first raw (mention b))))"
    by (simp only: issue_payload_def Let_def never_boltapp if_False five)
  ultimately show ?thesis
    by (simp only: strip_rstrip)
qed


section \<open>The FileIssue path\<close>

lemma on_message_issue:
  assumes nb: "\<not> truthy (ev_bot_id ev)" "ev_subtype ev \<noteq> Some ''bot_message''"
    and res: "resolve_bot_id env s0 = (Inr (), s)"
    and nd: "\<not> is_delete_cmd (mention (BOT_USER_ID s)) (raw_text ev) (lower (raw_text ev))"
    and iss: "is_issue_cmd (mention (BOT_USER_ID s)) (raw_text ev) (lower (raw_text ev))"
  shows "on_message cfg env ev s0
           = issue_handler cfg env ev (ev_channel ev) (reply_thread ev)
               (issue_payload (mention (BOT_USER_ID s)) (raw_text ev) (lower (raw_text ev))) s"
  using nb nd iss by (simp add: on_message_def res and_then_def Let_def)

lemma split_first_pipe:
  assumes "CHR ''|'' \<in> set p"
  shows "\<exists>a b. p = a @ CHR ''|'' # b \<and> CHR ''|'' \<notin> set a
           \<and> split_title_body p = (strip a, strip b)"
proof -
  let ?a = "takeWhile (\<lambda>c. c \<noteq> CHR ''|'') p" and ?r = "dropWhile (\<lambda>c. c \<noteq> CHR ''|'') p"
  from assms have "?r \<noteq> []" by (simp add: dropWhile_eq_Nil_conv) 
  moreover have "\<not> (hd ?r \<noteq> CHR ''|'')" if "?r \<noteq> []"
    using that hd_dropWhile [of "\<lambda>c. c \<noteq> CHR ''|''" p] by blast
  ultimately have r: "?r = CHR ''|'' # drop 1 ?r"
    by (cases ?r) auto
  have "p = ?a @ ?r" by simp
  with r have "p = ?a @ CHR ''|'' # drop 1 ?r" by simp
  moreover have "CHR ''|'' \<notin> set ?a"
    by (auto dest: set_takeWhileD)
  moreover from assms have "split_title_body p = (strip ?a, strip (drop 1 ?r))"
    by (simp add: split_title_body_def)
  ultimately show ?thesis by blast
qed

lemma issue_handler_files:
  assumes "split_title_body p = (title, body0)" and "title \<noteq> []"
    and "body0 \<noteq> [] \<or> ev_user ev = Some u"
  shows "issue_handler cfg env ev ch th p s
           = file_issue cfg env ch th title (if body0 = [] then default_body u ch else body0) s"
  using assms by (auto simp: issue_handler_def)

lemma issue_handler_usage:
  assumes "fst (split_title_body p) = []"
  shows "issue_handler cfg env ev ch th p s = post env ch th Usage s"
  using assms by (cases "split_title_body p") (simp add: issue_handler_def)


lemma issue_handler_title_and_body:
  assumes nb: "\<not> truthy (ev_bot_id ev)" "ev_subtype ev \<noteq> Some ''bot_message''"
    and res: "resolve_bot_id env s0 = (Inr (), s)"
    and nd: "\<not> is_delete_cmd (mention (BOT_USER_ID s)) (raw_text ev) (lower (raw_text ev))"
    and iss: "is_issue_cmd (mention (BOT_USER_ID s)) (raw_text ev) (lower (raw_text ev))"
    and p: "p = issue_payload (mention (BOT_USER_ID s)) (raw_text ev) (lower (raw_text ev))"
  shows "(CHR ''|'' \<in> set p \<longrightarrow>
           (\<exists>a b. p = a @ CHR ''|'' # b \<and> CHR ''|'' \<notin> set a
              \<and> split_title_body p = (strip a, strip b)
              \<and> (strip a \<noteq> [] \<and> strip b \<noteq> [] \<longrightarrow>
                   on_message cfg env ev s0
                     = file_issue cfg env (ev_channel ev) (reply_thread ev) (strip a) (strip b) s)
              \<and> (\<forall>u. strip a \<noteq> [] \<and> strip b = [] \<and> ev_user ev = Some u \<longrightarrow>
                   on_message cfg env ev s0
                     = file_issue cfg env (ev_channel ev) (reply_thread ev) (strip a)
                         (default_body u (ev_channel ev)) s)))
       \<and> (CHR ''|'' \<notin> set p \<longrightarrow>
            split_title_body p = (strip p, [])
            \<and> (\<forall>u. strip p \<noteq> [] \<and> ev_user ev = Some u \<longrightarrow>
                  on_message cfg env ev s0
                    = file_issue cfg env (ev_channel ev) (reply_thread ev) (strip p)
                        (default_body u (ev_channel ev)) s))"
proof (intro conjI impI)
  have om: "on_message cfg env ev s0
              = issue_handler cfg env ev (ev_channel ev) (reply_thread ev) p s"
    unfolding p by (rule on_message_issue [OF nb res nd iss])
  {
    assume "CHR ''|'' \<in> set p"
    then obtain a b where ab: "p = a @ CHR ''|'' # b" "CHR ''|'' \<notin> set a"
        "split_title_body p = (strip a, strip b)"
      using split_first_pipe by blast
    have "on_message cfg env ev s0
            = file_issue cfg env (ev_channel ev) (reply_thread ev) (strip a) (strip b) s"
      if "strip a \<noteq> [] \<and> strip b \<noteq> []"
      using that issue_handler_files [OF ab(3), of ev _ cfg env "ev_channel ev" "reply_thread ev" s]
      by (simp add: om)
    moreover have "on_message cfg env ev s0
            = file_issue cfg env (ev_channel ev) (reply_thread ev) (strip a)
                (default_body u (ev_channel ev)) s"
      if "strip a \<noteq> [] \<and> strip b = [] \<and> ev_user ev = Some u" for u
      using that issue_handler_files [OF ab(3), of ev u cfg env "ev_channel ev" "reply_thread ev" s]
      by (simp add: om)
    ultimately show "\<exists>a b. p = a @ CHR ''|'' # b \<and> CHR ''|'' \<notin> set a
              \<and> split_title_body p = (strip a, strip b)
              \<and> (strip a \<noteq> [] \<and> strip b \<noteq> [] \<longrightarrow>
                   on_message cfg env ev s0
                     = file_issue cfg env (ev_channel ev) (reply_thread ev) (strip a) (strip b) s)
              \<and> (\<forall>u. strip a \<noteq> [] \<and> strip b = [] \<and> ev_user ev = Some u \<longrightarrow>
                   on_message cfg env ev s0
                     = file_issue cfg env (ev_channel ev) (reply_thread ev) (strip a)
                         (default_body u (ev_channel ev)) s)"
      using ab by blast
  }
  {
    assume np: "CHR ''|'' \<notin> set p"
    then show sp: "split_title_body p = (strip p, [])"
      by (simp add: split_title_body_def)
    show "\<forall>u. strip p \<noteq> [] \<and> ev_user ev = Some u \<longrightarrow>
                  on_message cfg env ev s0
                    = file_issue cfg env (ev_channel ev) (reply_thread ev) (strip p)
                        (default_body u (ev_channel ev)) s"
    proof (intro allI impI)
      fix u assume "strip p \<noteq> [] \<and> ev_user ev = Some u"
      then show "on_message cfg env ev s0
                    = file_issue cfg env (ev_channel ev) (reply_thread ev) (strip p)
                        (default_body u (ev_channel ev)) s"
        using issue_handler_files [OF sp, of ev u cfg env "ev_channel ev" "reply_thread ev" s]
        by (simp add: om)
    qed
  }
qed

text \<open>
  C8. When the FileIssue path is taken with payload \<open>p\<close>: if \<open>p\<close> contains a pipe, the
  title is the trimmed part before the first pipe and the body the trimmed part after it,
  and the adapter is called with them; if \<open>p\<close> has no pipe, the title is the whole
  trimmed payload. Where no body was given (no pipe, or nothing but blanks after it), the
  adapter is called with the text \<open>Created via Slack by <@U> in channel C.\<close>, with the
  event's author for \<open>U\<close> and its channel for \<open>C\<close>.
\<close>

theorem issue_title_and_body:
  assumes nb: "\<not> truthy (ev_bot_id ev)" "ev_subtype ev \<noteq> Some ''bot_message''"
    and res: "resolve_bot_id env s0 = (Inr (), s)"
    and nd: "\<not> is_delete_cmd (mention (BOT_USER_ID s)) (raw_text ev) (lower (raw_text ev))"
    and iss: "is_issue_cmd (mention (BOT_USER_ID s)) (raw_text ev) (lower (raw_text ev))"
    and p: "p = issue_payload (mention (BOT_USER_ID s)) (raw_text ev) (lower (raw_text ev))"
  shows "(CHR ''|'' \<in> set p \<longrightarrow>
           (\<exists>a b. p = a @ CHR ''|'' # b \<and> CHR ''|'' \<notin> set a
              \<and> split_title_body p = (strip a, strip b)
              \<and> (strip a \<noteq> [] \<and> strip b \<noteq> [] \<longrightarrow>
                   on_message cfg env ev s0
                     = file_issue cfg env (ev_channel ev) (reply_thread ev) (strip a) (strip b) s)
              \<and> (\<forall>u. strip a \<noteq> [] \<and> strip b = [] \<and> ev_user ev = Some u \<longrightarrow>
                   on_message cfg env ev s0
                     = file_issue cfg env (ev_channel ev) (reply_thread ev) (strip a)
                         (''Created via Slack by <@'' @ u @ ''> in channel ''
                            @ (case ev_channel ev of None \<Rightarrow> ''None'' | Some c \<Rightarrow> c) @ ''.'') s)))
       \<and> (CHR ''|'' \<notin> set p \<longrightarrow>
            split_title_body p = (strip p, [])
            \<and> (\<forall>u. strip p \<noteq> [] \<and> ev_user ev = Some u \<longrightarrow>
                  on_message cfg env ev s0
                    = file_issue cfg env (ev_channel ev) (reply_thread ev) (strip p)
                        (''Created via Slack by <@'' @ u @ ''> in channel ''
                           @ (case ev_channel ev of None \<Rightarrow> ''None'' | Some c \<Rightarrow> c) @ ''.'') s))"
  using issue_handler_title_and_body [OF nb res nd iss p, of cfg]
  unfolding default_body_def fmt_def by simp

text \<open>
  C9. When the FileIssue path is taken and the title is empty, the handler posts the usage
  message to the thread and does nothing else: the Issue Filing Adapter is not called.
\<close>

theorem empty_title_usage:
  assumes nb: "\<not> truthy (ev_bot_id ev)" "ev_subtype ev \<noteq> Some ''bot_message''"
    and res: "resolve_bot_id env s0 = (Inr (), s)"
    and nd: "\<not> is_delete_cmd (mention (BOT_USER_ID s)) (raw_text ev) (lower (raw_text ev))"
    and iss: "is_issue_cmd (mention (BOT_USER_ID s)) (raw_text ev) (lower (raw_text ev))"
    and empty: "fst (split_title_body
                      (issue_payload (mention (BOT_USER_ID s)) (raw_text ev) (lower (raw_text ev))))
                  = []"
  shows "on_message cfg env ev s0 = post env (ev_channel ev) (reply_thread ev) Usage s
       \<and> trace (snd (on_message cfg env ev s0))
           = trace s @ [(PostMessage (ev_channel ev) (reply_thread ev) Usage,
                         returned (chat_postMessage env (ev_channel ev) (reply_thread ev) Usage))]"
proof -
  have "on_message cfg env ev s0 = post env (ev_channel ev) (reply_thread ev) Usage s"
    by (simp only: on_message_issue [OF nb res nd iss] issue_handler_usage [OF empty])
  then show ?thesis by (simp add: post_def perform_def)
qed

lemma replace_first_issue_prefix:
  assumes "startswith (lower raw) ''issue''"
  shows "replace_first raw (mention b) = take 5 raw @ replace_first (drop 5 raw) (mention b)"
proof -
  let ?a = "take 5 raw" and ?x = "drop 5 raw"
  from assms have t: "map lower_char ?a = ''issue''"
    by (simp add: startswith_def lower_def take_map eval_nat_numeral)
  have mem: "lower_char c \<in> set ''issue''" if "c \<in> set ?a" for c
    using that t by (metis image_eqI list.set_map)
  have nolt: "\<forall>c\<in>set ?a. c \<noteq> hd (mention b)"
    using mem issue_letter_not_lt by (auto simp: mention_def)
  show ?thesis
    using replace_first_skip [of "mention b" ?a ?x] nolt by (simp add: mention_def)
qed

text \<open>
  The payload on the plain form of the command: when the lower-cased trimmed text begins
  with the five characters \<open>issue\<close> (no word boundary is needed) the FileIssue path is
  taken, and the payload is what follows those five characters with the first occurrence
  of the bot's mention token removed, trimmed; when the text has no mention token, it is
  everything after the five characters, trimmed.
\<close>

lemma issue_prefix_payload:
  assumes nb: "\<not> truthy (ev_bot_id ev)" "ev_subtype ev \<noteq> Some ''bot_message''"
    and res: "resolve_bot_id env s0 = (Inr (), s)"
    and nd: "\<not> is_delete_cmd (mention (BOT_USER_ID s)) (raw_text ev) (lower (raw_text ev))"
    and pre: "startswith (lower (raw_text ev)) ''issue''"
  shows "on_message cfg env ev s0
           = issue_handler cfg env ev (ev_channel ev) (reply_thread ev)
               (strip (replace_first (drop 5 (raw_text ev)) (mention (BOT_USER_ID s)))) s
       \<and> (\<not> contains (raw_text ev) (mention (BOT_USER_ID s)) \<longrightarrow>
            on_message cfg env ev s0
              = issue_handler cfg env ev (ev_channel ev) (reply_thread ev)
                  (strip (drop 5 (raw_text ev))) s)"
proof -
  let ?m = "mention (BOT_USER_ID s)" and ?raw = "raw_text ev"
  from pre have iss: "is_issue_cmd ?m ?raw (lower ?raw)"
    by (simp add: is_issue_cmd_def)
  have om: "on_message cfg env ev s0
           = issue_handler cfg env ev (ev_channel ev) (reply_thread ev)
               (strip (replace_first (drop 5 ?raw) ?m)) s"
    by (simp only: on_message_issue [OF nb res nd iss] issue_payload_plain [OF pre])
  have "replace_first (drop 5 ?raw) ?m = drop 5 ?raw" if "\<not> contains ?raw ?m"
  proof -
    from that have "replace_first ?raw ?m = ?raw" by (rule replace_first_absent)
    with replace_first_issue_prefix [OF pre, of "BOT_USER_ID s"]
    have "take 5 ?raw @ replace_first (drop 5 ?raw) ?m = take 5 ?raw @ drop 5 ?raw"
      by simp
    then show ?thesis by (simp only: same_append_eq)
  qed
  with om show ?thesis by simp
qed

theorem issue_title_and_body_witness:
  "trace (snd (on_message sample_cfg sample_env (message ''issue Title | Body text'')
                 initial_state))
     = [(AuthTest, True),
        (HttpPost ''https://api.github.com/repos/o/r/issues''
           [(''Accept'', ''application/vnd.github+json''),
            (''Authorization'', ''Bearer ghp''),
            (''X-GitHub-Api-Version'', ''2022-11-28'')] ''Title'' ''Body text'' 30, True),
        (PostMessage (Some ''C1'') (Some ''1.0'')
           (CreatedIssue 7 ''https://github.com/o/r/issues/7''), True)]
   \<and> trace (snd (on_message sample_cfg sample_env (message ''issue Fix login'') initial_state))
     = [(AuthTest, True),
        (HttpPost ''https://api.github.com/repos/o/r/issues''
           [(''Accept'', ''application/vnd.github+json''),
            (''Authorization'', ''Bearer ghp''),
            (''X-GitHub-Api-Version'', ''2022-11-28'')] ''Fix login''
           ''Created via Slack by <@U9> in channel C1.'' 30, True),
        (PostMessage (Some ''C1'') (Some ''1.0'')
           (CreatedIssue 7 ''https://github.com/o/r/issues/7''), True)]"
proof -
  let ?s = "\<lparr>BOT_USER_ID = Some ''U1'', INDEXED_FILE_IDS = {}, trace = [(AuthTest, True)]\<rparr>"
  let ?e1 = "message ''issue Title | Body text''" and ?e2 = "message ''issue Fix login''"
  have res: "resolve_bot_id sample_env initial_state = (Inr (), ?s)"
    by (simp add: eval_defs)
  have a1: "\<not> truthy (ev_bot_id ?e1)" and a2: "ev_subtype ?e1 \<noteq> Some ''bot_message''"
    and a3: "\<not> is_delete_cmd (mention (BOT_USER_ID ?s)) (raw_text ?e1) (lower (raw_text ?e1))"
    and a4: "is_issue_cmd (mention (BOT_USER_ID ?s)) (raw_text ?e1) (lower (raw_text ?e1))"
    and a5: "''Title | Body text''
               = issue_payload (mention (BOT_USER_ID ?s)) (raw_text ?e1) (lower (raw_text ?e1))"
    by (simp_all add: eval_defs)
  have b1: "\<not> truthy (ev_bot_id ?e2)" and b2: "ev_subtype ?e2 \<noteq> Some ''bot_message''"
    and b3: "\<not> is_delete_cmd (mention (BOT_USER_ID ?s)) (raw_text ?e2) (lower (raw_text ?e2))"
    and b4: "is_issue_cmd (mention (BOT_USER_ID ?s)) (raw_text ?e2) (lower (raw_text ?e2))"
    and b5: "''Fix login''
               = issue_payload (mention (BOT_USER_ID ?s)) (raw_text ?e2) (lower (raw_text ?e2))"
    by (simp_all add: eval_defs)
  have mem: "CHR ''|'' \<in> set ''Title | Body text''" by simp
  from conjunct1 [OF issue_title_and_body [OF a1 a2 res a3 a4 a5, of sample_cfg], THEN mp, OF mem]
  obtain a b where ab: "''Title | Body text'' = a @ CHR ''|'' # b" "CHR ''|'' \<notin> set a"
    and run: "strip a \<noteq> [] \<and> strip b \<noteq> [] \<longrightarrow>
              on_message sample_cfg sample_env ?e1 initial_state
                = file_issue sample_cfg sample_env (ev_channel ?e1) (reply_thread ?e1)
                    (strip a) (strip b) ?s"
    by blast
  have nin: "CHR ''|'' \<notin> set ''Title ''" and nin2: "CHR ''|'' \<notin> set '' Body text''"
    by simp_all
  have eq: "''Title '' @ CHR ''|'' # '' Body text'' = a @ CHR ''|'' # b"
    using ab(1) by simp
  have vals: "''Title '' = a \<and> '' Body text'' = b"
    by (rule iffD1 [OF append_Cons_eq_iff [OF nin nin2] eq])
  have sa: "strip ''Title '' = ''Title''" and sb: "strip '' Body text'' = ''Body text''"
    by (simp_all add: strip_def lstrip_def rstrip_def isspace_def)
  from vals have a: "a = ''Title ''" and b: "b = '' Body text''" by simp_all
  from run have first: "on_message sample_cfg sample_env ?e1 initial_state
                = file_issue sample_cfg sample_env (ev_channel ?e1) (reply_thread ?e1)
                    ''Title'' ''Body text'' ?s"
    unfolding a b sa sb by simp
  have nmem: "CHR ''|'' \<notin> set ''Fix login''" by simp
  from conjunct2 [OF issue_title_and_body [OF b1 b2 res b3 b4 b5, of sample_cfg], THEN mp, OF nmem]
  have second: "on_message sample_cfg sample_env ?e2 initial_state
                = file_issue sample_cfg sample_env (ev_channel ?e2) (reply_thread ?e2)
                    ''Fix login'' ''Created via Slack by <@U9> in channel C1.'' ?s"
    by (simp add: strip_def lstrip_def rstrip_def isspace_def message_def)
  show ?thesis
    unfolding first second by (simp add: eval_defs)
qed

theorem empty_title_usage_witness:
  "on_message sample_cfg sample_env (message ''issue   '') initial_state
     = (Inr (), \<lparr>BOT_USER_ID = Some ''U1'', INDEXED_FILE_IDS = {},
                 trace = [(AuthTest, True),
                          (PostMessage (Some ''C1'') (Some ''1.0'') Usage, True)]\<rparr>)"
proof -
  let ?s = "\<lparr>BOT_USER_ID = Some ''U1'', INDEXED_FILE_IDS = {}, trace = [(AuthTest, True)]\<rparr>"
  let ?e = "message ''issue   ''"
  have res: "resolve_bot_id sample_env initial_state = (Inr (), ?s)"
    by (simp add: eval_defs)
  have a1: "\<not> truthy (ev_bot_id ?e)" and a2: "ev_subtype ?e \<noteq> Some ''bot_message''"
    and a3: "\<not> is_delete_cmd (mention (BOT_USER_ID ?s)) (raw_text ?e) (lower (raw_text ?e))"
    and a4: "is_issue_cmd (mention (BOT_USER_ID ?s)) (raw_text ?e) (lower (raw_text ?e))"
    and a5: "fst (split_title_body
                    (issue_payload (mention (BOT_USER_ID ?s)) (raw_text ?e) (lower (raw_text ?e))))
               = []"
    by (simp_all add: eval_defs)
  from empty_title_usage [OF a1 a2 res a3 a4 a5, of sample_cfg]
  have "on_message sample_cfg sample_env ?e initial_state
          = post sample_env (ev_channel ?e) (reply_thread ?e) Usage ?s"
    by simp
  then show ?thesis by (simp add: eval_defs)
qed

lemma issues_with_login_example:
  "on_message sample_cfg sample_env (message ''issues with login'') initial_state
     = issue_handler sample_cfg sample_env (message ''issues with login'') (Some ''C1'')
         (Some ''1.0'') ''s with login''
         \<lparr>BOT_USER_ID = Some ''U1'', INDEXED_FILE_IDS = {}, trace = [(AuthTest, True)]\<rparr>"
proof -
  let ?s = "\<lparr>BOT_USER_ID = Some ''U1'', INDEXED_FILE_IDS = {}, trace = [(AuthTest, True)]\<rparr>"
  let ?e = "message ''issues with login''"
  have res: "resolve_bot_id sample_env initial_state = (Inr (), ?s)"
    by (simp add: eval_defs)
  have a1: "\<not> truthy (ev_bot_id ?e)" and a2: "ev_subtype ?e \<noteq> Some ''bot_message''"
    and a3: "\<not> is_delete_cmd (mention (BOT_USER_ID ?s)) (raw_text ?e) (lower (raw_text ?e))"
    and a4: "startswith (lower (raw_text ?e)) ''issue''"
    and a5: "\<not> contains (raw_text ?e) (mention (BOT_USER_ID ?s))"
    by (simp_all add: eval_defs)
  from issue_prefix_payload [OF a1 a2 res a3 a4, of sample_cfg] a5
  have "on_message sample_cfg sample_env ?e initial_state
          = issue_handler sample_cfg sample_env ?e (ev_channel ?e) (reply_thread ?e)
              (strip (drop 5 (raw_text ?e))) ?s"
    by blast
  then show ?thesis by (simp add: eval_defs)
qed

text \<open>
  Line 107 removes the first mention token wherever it stands. On the mention-prefixed
  form that is the leading one, and a mention further on stays in the payload (shown for
  a bot whose id has no capital letter, the only ids that form works for).
\<close>

lemma mention_form_keeps_inner_mention:
  "on_message sample_cfg (sample_env\<lparr>auth_test := Inr ''u1''\<rparr>)
     (message ''<@u1> issue ping <@u1> now'') initial_state
     = (Inr (),
        \<lparr>BOT_USER_ID = Some ''u1'', INDEXED_FILE_IDS = {},
         trace = [(AuthTest, True),
                  (HttpPost ''https://api.github.com/repos/o/r/issues''
                     [(''Accept'', ''application/vnd.github+json''),
                      (''Authorization'', ''Bearer ghp''),
                      (''X-GitHub-Api-Version'', ''2022-11-28'')] ''ping <@u1> now''
                     ''Created via Slack by <@U9> in channel C1.'' 30, True),
                  (PostMessage (Some ''C1'') (Some ''1.0'')
                     (CreatedIssue 7 ''https://github.com/o/r/issues/7''), True)]\<rparr>)"
  by (simp add: eval_defs)

text \<open>
  C10. On the plain form the same removal cuts a mention out of the middle of the
  payload: for the bot \<open>U1\<close> the message \<open>issue ping <@U1> now\<close> is not a Delete
  command and begins with \<open>issue\<close>, everything after the keyword, trimmed, is
  \<open>ping <@U1> now\<close>, and the issue is filed with the title \<open>ping  now\<close>.
\<close>

theorem issue_prefix_drops_inner_mention:
  "\<not> truthy (ev_bot_id (message ''issue ping <@U1> now''))
   \<and> \<not> is_delete_cmd ''<@U1>'' (raw_text (message ''issue ping <@U1> now''))
         (lower (raw_text (message ''issue ping <@U1> now'')))
   \<and> startswith (lower (raw_text (message ''issue ping <@U1> now''))) ''issue''
   \<and> strip (drop 5 (raw_text (message ''issue ping <@U1> now''))) = ''ping <@U1> now''
   \<and> on_message sample_cfg sample_env (message ''issue ping <@U1> now'') initial_state
     = (Inr (),
        \<lparr>BOT_USER_ID = Some ''U1'', INDEXED_FILE_IDS = {},
         trace = [(AuthTest, True),
                  (HttpPost ''https://api.github.com/repos/o/r/issues''
                     [(''Accept'', ''application/vnd.github+json''),
                      (''Authorization'', ''Bearer ghp''),
                      (''X-GitHub-Api-Version'', ''2022-11-28'')] ''ping  now''
                     ''Created via Slack by <@U9> in channel C1.'' 30, True),
                  (PostMessage (Some ''C1'') (Some ''1.0'')
                     (CreatedIssue 7 ''https://github.com/o/r/issues/7''), True)]\<rparr>)"
  by (simp add: eval_defs)


section \<open>The set of indexed file ids\<close>

lemma indexed_ok_append: "indexed_ok (a @ b) = indexed_ok a @ indexed_ok b"
  by (induction a rule: indexed_ok.induct) simp_all

lemma quiet_refl: "quiet s s"
  by (simp add: quiet_def)

lemma quiet_trans: "quiet s s1 \<Longrightarrow> quiet s1 s2 \<Longrightarrow> quiet s s2"
  by (auto simp: quiet_def indexed_ok_append)

lemma quiet_ingested: "quiet s s' \<Longrightarrow> ingested s s'"
  by (auto simp: quiet_def ingested_def)

lemma ingested_trans:
  assumes "ingested s s1" and "ingested s1 s2"
  shows "ingested s s2"
proof -
  from assms(1) obtain n1 where n1: "trace s1 = trace s @ n1"
      "INDEXED_FILE_IDS s1 = INDEXED_FILE_IDS s \<union> set (indexed_ok n1)"
      "distinct (indexed_ok n1)" "set (indexed_ok n1) \<inter> INDEXED_FILE_IDS s = {}"
    unfolding ingested_def by blast
  from assms(2) obtain n2 where n2: "trace s2 = trace s1 @ n2"
      "INDEXED_FILE_IDS s2 = INDEXED_FILE_IDS s1 \<union> set (indexed_ok n2)"
      "distinct (indexed_ok n2)" "set (indexed_ok n2) \<inter> INDEXED_FILE_IDS s1 = {}"
    unfolding ingested_def by blast
  have "trace s2 = trace s @ (n1 @ n2)" using n1 n2 by simp
  moreover have "INDEXED_FILE_IDS s2 = INDEXED_FILE_IDS s \<union> set (indexed_ok (n1 @ n2))"
    using n1 n2 by (auto simp: indexed_ok_append)
  moreover have "distinct (indexed_ok (n1 @ n2))"
    using n1 n2 by (auto simp: indexed_ok_append)
  moreover have "set (indexed_ok (n1 @ n2)) \<inter> INDEXED_FILE_IDS s = {}"
    using n1 n2 by (auto simp: indexed_ok_append)
  ultimately show ?thesis unfolding ingested_def by blast
qed

lemma quiet_perform:
  "indexed_ok [(c, returned r)] = [] \<Longrightarrow> quiet s (snd (perform c r s))"
  by (simp add: quiet_def perform_def)

lemma quiet_and_then:
  assumes "quiet s (snd m)" and "\<And>x s1. quiet s1 (snd (f x s1))"
  shows "quiet s (snd (and_then m f))"
proof (cases m)
  case (Pair r s1)
  show ?thesis
  proof (cases r)
    case (Inl e)
    with Pair assms(1) show ?thesis by (simp add: and_then_def)
  next
    case (Inr x)
    with Pair have "snd (and_then m f) = snd (f x s1)" by (simp add: and_then_def)
    with assms Pair show ?thesis by (metis quiet_trans snd_conv)
  qed
qed

lemma quiet_try_except:
  assumes "quiet s (snd m)" and "\<And>e s1. quiet s1 (snd (h e s1))"
  shows "quiet s (snd (try_except m h))"
proof (cases m)
  case (Pair r s1)
  show ?thesis
  proof (cases r)
    case (Inr x)
    with Pair assms(1) show ?thesis by (simp add: try_except_def)
  next
    case (Inl e)
    with Pair have "snd (try_except m h) = snd (h e s1)" by (simp add: try_except_def)
    with assms Pair show ?thesis by (metis quiet_trans snd_conv)
  qed
qed

lemma quiet_post: "quiet s (snd (post env ch th r s))"
  unfolding post_def by (rule quiet_perform) simp

lemma quiet_bot_id: "quiet s (s\<lparr>BOT_USER_ID := b\<rparr>)"
  by (simp add: quiet_def)

lemma quiet_resolve_bot_id: "quiet s (snd (resolve_bot_id env s))"
  unfolding resolve_bot_id_def
  by (auto intro!: quiet_and_then quiet_perform quiet_refl quiet_bot_id)

lemma quiet_delete_handler: "quiet s (snd (delete_handler env ev s))"
  unfolding delete_handler_def
  by (auto intro!: quiet_and_then quiet_perform quiet_refl quiet_post split: option.splits)

lemma quiet_create_github_issue: "quiet s (snd (create_github_issue cfg env t b s))"
  by (auto simp: create_github_issue_def quiet_def perform_def split: sum.splits)

lemma quiet_file_issue: "quiet s (snd (file_issue cfg env ch th t b s))"
  unfolding file_issue_def
  by (auto intro!: quiet_try_except quiet_and_then quiet_create_github_issue quiet_post)

lemma quiet_issue_handler: "quiet s (snd (issue_handler cfg env ev ch th p s))"
  unfolding issue_handler_def
  by (auto intro!: quiet_file_issue quiet_post quiet_refl split: prod.splits sum.splits option.splits)

lemma quiet_query_handler: "quiet s (snd (query_handler env ev ch th s))"
  unfolding query_handler_def Let_def
  by (auto intro!: quiet_try_except quiet_and_then quiet_perform quiet_post quiet_refl)

lemma quiet_download: "quiet s (snd (download_slack_file cfg env url s))"
  by (auto simp: download_slack_file_def quiet_def perform_def split: sum.splits option.splits)


lemma quiet_indexed: "quiet s s' \<Longrightarrow> INDEXED_FILE_IDS s' = INDEXED_FILE_IDS s"
  by (simp add: quiet_def)

lemma ingested_and_then:
  assumes "quiet s (snd m)"
    and "\<And>x s1. INDEXED_FILE_IDS s1 = INDEXED_FILE_IDS s \<Longrightarrow> ingested s1 (snd (f x s1))"
  shows "ingested s (snd (and_then m f))"
proof (cases m)
  case (Pair r s1)
  with assms(1) have q: "quiet s s1" by simp
  show ?thesis
  proof (cases r)
    case (Inl e)
    with Pair q show ?thesis by (simp add: and_then_def quiet_ingested)
  next
    case (Inr x)
    with Pair have "snd (and_then m f) = snd (f x s1)" by (simp add: and_then_def)
    moreover have "ingested s1 (snd (f x s1))"
      by (rule assms(2)) (rule quiet_indexed [OF q])
    ultimately show ?thesis
      using q by (metis ingested_trans quiet_ingested)
  qed
qed

lemma ingested_try_except:
  assumes "ingested s (snd m)" and "\<And>e s1. quiet s1 (snd (h e s1))"
  shows "ingested s (snd (try_except m h))"
proof (cases m)
  case (Pair r s1)
  show ?thesis
  proof (cases r)
    case (Inr x)
    with Pair assms(1) show ?thesis by (simp add: try_except_def)
  next
    case (Inl e)
    with Pair have "snd (try_except m h) = snd (h e s1)" by (simp add: try_except_def)
    with assms Pair show ?thesis by (metis ingested_trans quiet_ingested snd_conv)
  qed
qed

lemma index_step:
  assumes "fid \<notin> INDEXED_FILE_IDS s"
  shows "ingested s
           (snd (and_then (perform (IndexFile fid d fo u c) r s)
                   (\<lambda>ids s4. post env ch th (Saved name (length ids))
                                (s4\<lparr>INDEXED_FILE_IDS := insert fid (INDEXED_FILE_IDS s4)\<rparr>))))"
  using assms
  by (cases r) (auto simp: ingested_def and_then_def perform_def post_def returned_def)

lemma ingested_ingest:
  assumes "fid \<notin> INDEXED_FILE_IDS s"
  shows "ingested s (snd (ingest cfg env ev ch th fid fo url name s))"
  unfolding ingest_def
proof (rule ingested_and_then [OF quiet_download])
  fix data and s1 :: state assume s1: "INDEXED_FILE_IDS s1 = INDEXED_FILE_IDS s"
  show "ingested s1
          (snd (and_then (perform (WriteBytes (fid @ ''-'' @ name) data)
                            (write_bytes env (fid @ ''-'' @ name) data) s1)
                  (\<lambda>_ s2. case ev_user ev of
                      None \<Rightarrow> (Inl (KeyError ''user''), s2)
                    | Some user_id \<Rightarrow>
                        and_then (perform (UsersInfo user_id) (users_info env user_id) s2)
                          (\<lambda>result s3.
                             let user_name = py_or (display_name result) (real_name result)
                             in and_then
                                  (perform (IndexFile fid data fo user_name ch)
                                     (index_slack_file_bytes env data fo user_name ch) s3)
                                  (\<lambda>ids s4.
                                     post env ch th (Saved name (length ids))
                                       (s4\<lparr>INDEXED_FILE_IDS :=
                                             insert fid (INDEXED_FILE_IDS s4)\<rparr>))))))"
  proof (rule ingested_and_then)
    show "quiet s1 (snd (perform (WriteBytes (fid @ ''-'' @ name) data)
                            (write_bytes env (fid @ ''-'' @ name) data) s1))"
      by (rule quiet_perform) simp
  next
    fix x :: unit and s2 :: state assume s2: "INDEXED_FILE_IDS s2 = INDEXED_FILE_IDS s1"
    show "ingested s2
            (snd (case ev_user ev of
                      None \<Rightarrow> (Inl (KeyError ''user''), s2)
                    | Some user_id \<Rightarrow>
                        and_then (perform (UsersInfo user_id) (users_info env user_id) s2)
                          (\<lambda>result s3.
                             let user_name = py_or (display_name result) (real_name result)
                             in and_then
                                  (perform (IndexFile fid data fo user_name ch)
                                     (index_slack_file_bytes env data fo user_name ch) s3)
                                  (\<lambda>ids s4.
                                     post env ch th (Saved name (length ids))
                                       (s4\<lparr>INDEXED_FILE_IDS :=
                                             insert fid (INDEXED_FILE_IDS s4)\<rparr>)))))"
    proof (cases "ev_user ev")
      case None
      then show ?thesis by (simp add: quiet_ingested quiet_refl)
    next
      case (Some user_id)
      have "ingested s2
              (snd (and_then (perform (UsersInfo user_id) (users_info env user_id) s2)
                          (\<lambda>result s3.
                             let user_name = py_or (display_name result) (real_name result)
                             in and_then
                                  (perform (IndexFile fid data fo user_name ch)
                                     (index_slack_file_bytes env data fo user_name ch) s3)
                                  (\<lambda>ids s4.
                                     post env ch th (Saved name (length ids))
                                       (s4\<lparr>INDEXED_FILE_IDS :=
                                             insert fid (INDEXED_FILE_IDS s4)\<rparr>)))))"
      proof (rule ingested_and_then)
        show "quiet s2 (snd (perform (UsersInfo user_id) (users_info env user_id) s2))"
          by (rule quiet_perform) simp
      next
        fix result :: slack_user and s3 :: state assume s3: "INDEXED_FILE_IDS s3 = INDEXED_FILE_IDS s2"
        with s2 s1 assms have "fid \<notin> INDEXED_FILE_IDS s3" by simp
        then show "ingested s3
                (snd (let user_name = py_or (display_name result) (real_name result)
                      in and_then
                           (perform (IndexFile fid data fo user_name ch)
                              (index_slack_file_bytes env data fo user_name ch) s3)
                           (\<lambda>ids s4.
                              post env ch th (Saved name (length ids))
                                (s4\<lparr>INDEXED_FILE_IDS :=
                                      insert fid (INDEXED_FILE_IDS s4)\<rparr>))))"
          unfolding Let_def by (rule index_step)
      qed
      with Some show ?thesis by simp
    qed
  qed
qed


lemma ingested_refl: "ingested s s"
  by (rule quiet_ingested [OF quiet_refl])

lemma ingested_upload_loop:
  "ingested s (snd (upload_loop cfg env ev ch th fs s))"
proof (induction fs arbitrary: s)
  case Nil
  show ?case by (simp add: ingested_refl)
next
  case (Cons f fs)
  show ?case
  proof (cases "\<not> truthy f \<or> or_empty f \<in> INDEXED_FILE_IDS s")
    case True
    then have "upload_loop cfg env ev ch th (f # fs) s = upload_loop cfg env ev ch th fs s"
      by (auto simp: Let_def)
    then show ?thesis by (simp only: Cons.IH)
  next
    case False
    then have new: "or_empty f \<notin> INDEXED_FILE_IDS s" and tr: "truthy f" by simp_all
    let ?fid = "or_empty f"
    obtain r s1 where p: "perform (FilesInfo ?fid) (files_info env ?fid) s = (r, s1)"
      by (cases "perform (FilesInfo ?fid) (files_info env ?fid) s") blast
    have q1: "quiet s s1"
      using quiet_perform [of "FilesInfo ?fid" "files_info env ?fid" s] p by simp
    then have new1: "?fid \<notin> INDEXED_FILE_IDS s1"
      using new by (simp add: quiet_indexed)
    show ?thesis
    proof (cases r)
      case (Inl e)
      with False p have "snd (upload_loop cfg env ev ch th (f # fs) s) = s1"
        by (simp add: Let_def)
      with q1 show ?thesis by (simp add: quiet_ingested)
    next
      case (Inr fo)
      let ?url = "py_or (url_private_download fo) (url_private fo)"
      let ?name = "if truthy (py_or (file_name fo) (file_title fo))
                   then or_empty (py_or (file_name fo) (file_title fo))
                   else ?fid @ ''.bin''"
      let ?ext = "lower (path_suffix env ?name)"
      have after_post: "ingested s1 (snd (case post env ch th rep s1 of
                               (Inl e, s2) \<Rightarrow> (Some (Inl e), s2)
                             | (Inr _, s2) \<Rightarrow> upload_loop cfg env ev ch th fs s2))" for rep
      proof (cases "post env ch th rep s1")
        case (Pair r2 s2)
        then have q2: "quiet s1 s2"
          using quiet_post [of s1 env ch th rep] by simp
        show ?thesis
        proof (cases r2)
          case (Inl e)
          with Pair q2 show ?thesis by (simp add: quiet_ingested)
        next
          case (Inr u)
          with Pair have "snd (case post env ch th rep s1 of
                               (Inl e, s2) \<Rightarrow> (Some (Inl e), s2)
                             | (Inr _, s2) \<Rightarrow> upload_loop cfg env ev ch th fs s2)
                          = snd (upload_loop cfg env ev ch th fs s2)"
            by simp
          then show ?thesis
            using q2 Cons.IH [of s2] by (metis ingested_trans quiet_ingested)
        qed
      qed
      have tail: "ingested s1 (snd (upload_loop cfg env ev ch th (f # fs) s))"
      proof (cases "\<not> truthy ?url")
        case True
        with False p Inr have "upload_loop cfg env ev ch th (f # fs) s
            = (case post env ch th (NoDownloadUrl ?name) s1 of
                               (Inl e, s2) \<Rightarrow> (Some (Inl e), s2)
                             | (Inr _, s2) \<Rightarrow> upload_loop cfg env ev ch th fs s2)"
          by (simp add: Let_def)
        then show ?thesis by (simp only: after_post)
      next
        case url: False
        show ?thesis
        proof (cases "?ext \<notin> ALLOWED_EXTENSIONS")
          case True
          with url False p Inr have "upload_loop cfg env ev ch th (f # fs) s
            = (case post env ch th (Unsupported (if ?ext \<noteq> [] then ?ext else ?name)) s1 of
                               (Inl e, s2) \<Rightarrow> (Some (Inl e), s2)
                             | (Inr _, s2) \<Rightarrow> upload_loop cfg env ev ch th fs s2)"
            by (simp add: Let_def)
          then show ?thesis by (simp only: after_post)
        next
          case ext: False
          with url False p Inr have "snd (upload_loop cfg env ev ch th (f # fs) s)
            = snd (try_except (ingest cfg env ev ch th ?fid fo (or_empty ?url) ?name s1)
                     (\<lambda>e s2. post env ch th (FailedProcess ?name e) s2))"
            by (simp add: Let_def split: prod.splits)
          moreover have "ingested s1
                  (snd (try_except (ingest cfg env ev ch th ?fid fo (or_empty ?url) ?name s1)
                     (\<lambda>e s2. post env ch th (FailedProcess ?name e) s2)))"
            by (rule ingested_try_except [OF ingested_ingest [OF new1] quiet_post])
          ultimately show ?thesis by simp
        qed
      qed
      with q1 show ?thesis by (metis ingested_trans quiet_ingested)
    qed
  qed
qed

lemma ingested_on_message: "ingested s (snd (on_message cfg env ev s))"
proof (cases "truthy (ev_bot_id ev) \<or> ev_subtype ev = Some ''bot_message''")
  case True
  then show ?thesis by (auto simp: on_message_def ingested_refl)
next
  case False
  have body: "ingested s1
     (snd (let channel = ev_channel ev;
                 thread_ts = reply_thread ev;
                 subtype = ev_subtype ev;
                 lower_text = lower (raw_text ev);
                 m = mention (BOT_USER_ID s1)
             in if is_delete_cmd m (raw_text ev) lower_text then delete_handler env ev s1
                else if is_issue_cmd m (raw_text ev) lower_text
                then issue_handler cfg env ev channel thread_ts
                       (issue_payload m (raw_text ev) lower_text) s1
                else
                  (case (if subtype = Some ''file_share''
                         then upload_loop cfg env ev channel thread_ts (ev_files ev) s1
                         else (None, s1)) of
                     (Some r, s2) \<Rightarrow> (r, s2)
                   | (None, s2) \<Rightarrow> query_handler env ev channel thread_ts s2)))" for s1
  proof -
    have up: "ingested s1
       (snd (case upload_loop cfg env ev (ev_channel ev) (reply_thread ev) (ev_files ev) s1 of
               (Some r, s2) \<Rightarrow> (r, s2)
             | (None, s2) \<Rightarrow> query_handler env ev (ev_channel ev) (reply_thread ev) s2))"
    proof (cases "upload_loop cfg env ev (ev_channel ev) (reply_thread ev) (ev_files ev) s1")
      case (Pair o2 s2)
      then have i: "ingested s1 s2"
        using ingested_upload_loop [of s1 cfg env ev "ev_channel ev" "reply_thread ev" "ev_files ev"]
        by simp
      show ?thesis
      proof (cases o2)
        case None
        with Pair i show ?thesis
          using quiet_query_handler [of s2 env ev "ev_channel ev" "reply_thread ev"]
          by (simp) (metis ingested_trans quiet_ingested)
      next
        case (Some r)
        with Pair i show ?thesis by simp
      qed
    qed
    show ?thesis
      unfolding Let_def
      by (auto simp: up quiet_ingested quiet_delete_handler quiet_issue_handler
            quiet_query_handler)
  qed
  from False have "on_message cfg env ev s
      = and_then (resolve_bot_id env s)
          (\<lambda>_ s1. let channel = ev_channel ev;
                 thread_ts = reply_thread ev;
                 subtype = ev_subtype ev;
                 lower_text = lower (raw_text ev);
                 m = mention (BOT_USER_ID s1)
             in if is_delete_cmd m (raw_text ev) lower_text then delete_handler env ev s1
                else if is_issue_cmd m (raw_text ev) lower_text
                then issue_handler cfg env ev channel thread_ts
                       (issue_payload m (raw_text ev) lower_text) s1
                else
                  (case (if subtype = Some ''file_share''
                         then upload_loop cfg env ev channel thread_ts (ev_files ev) s1
                         else (None, s1)) of
                     (Some r, s2) \<Rightarrow> (r, s2)
                   | (None, s2) \<Rightarrow> query_handler env ev channel thread_ts s2))"
    by (simp add: on_message_def)
  then show ?thesis
    by (simp only: ingested_and_then [OF quiet_resolve_bot_id body])
qed

lemma ingested_run_events: "ingested s (run_events cfg evs s)"
proof (induction evs arbitrary: s)
  case Nil
  show ?case by (simp add: ingested_refl)
next
  case (Cons a evs)
  obtain env ev where a: "a = (env, ev)" by (cases a)
  show ?case
    unfolding a run_events.simps
    by (rule ingested_trans [OF ingested_on_message Cons.IH])
qed

lemma upload_loop_all_recorded:
  "\<forall>f\<in>set fs. truthy f \<longrightarrow> or_empty f \<in> INDEXED_FILE_IDS s \<Longrightarrow>
   upload_loop cfg env ev ch th fs s = (None, s)"
  by (induction fs) (auto simp: Let_def)


lemma on_message_all_recorded:
  assumes "\<not> truthy (ev_bot_id ev)" and "ev_subtype ev = Some ''file_share''"
    and "resolve_bot_id env s0 = (Inr (), s)"
    and "\<not> is_delete_cmd (mention (BOT_USER_ID s)) (raw_text ev) (lower (raw_text ev))"
    and "\<not> is_issue_cmd (mention (BOT_USER_ID s)) (raw_text ev) (lower (raw_text ev))"
    and "\<forall>f\<in>set (ev_files ev). truthy f \<longrightarrow> or_empty f \<in> INDEXED_FILE_IDS s"
  shows "on_message cfg env ev s0 = (Inr (), s)"
  using assms(1,2,4,5)
  by (simp add: on_message_def assms(3) and_then_def Let_def
        upload_loop_all_recorded [OF assms(6)] query_handler_def truthy_def)

text \<open>
  C4, as amended. Over any sequence of events handled one after the other from the
  initial state, each file id is indexed with success at most once, and the set of
  indexed ids is exactly the set of ids indexed with success: every handler run adds to
  the set the ids it indexed with success and nothing else, so an attempt that fails
  leaves the set as it was. A file share whose ids are all recorded already is skipped in
  silence: no message, no call, no change of state.
\<close>

theorem file_ids_indexed_once:
  "distinct (indexed_ok (trace (run_events cfg evs initial_state)))
   \<and> INDEXED_FILE_IDS (run_events cfg evs initial_state)
       = set (indexed_ok (trace (run_events cfg evs initial_state)))
   \<and> (\<forall>s env ev. \<exists>new.
         trace (snd (on_message cfg env ev s)) = trace s @ new
         \<and> INDEXED_FILE_IDS (snd (on_message cfg env ev s))
             = INDEXED_FILE_IDS s \<union> set (indexed_ok new))
   \<and> (\<forall>s0 s env ev.
         \<not> truthy (ev_bot_id ev) \<and> ev_subtype ev = Some ''file_share''
         \<and> resolve_bot_id env s0 = (Inr (), s)
         \<and> \<not> is_delete_cmd (mention (BOT_USER_ID s)) (raw_text ev) (lower (raw_text ev))
         \<and> \<not> is_issue_cmd (mention (BOT_USER_ID s)) (raw_text ev) (lower (raw_text ev))
         \<and> (\<forall>f\<in>set (ev_files ev). truthy f \<longrightarrow> or_empty f \<in> INDEXED_FILE_IDS s)
         \<longrightarrow> on_message cfg env ev s0 = (Inr (), s))"
proof (intro conjI allI impI)
  have "ingested initial_state (run_events cfg evs initial_state)"
    by (rule ingested_run_events)
  then show "distinct (indexed_ok (trace (run_events cfg evs initial_state)))"
    and "INDEXED_FILE_IDS (run_events cfg evs initial_state)
       = set (indexed_ok (trace (run_events cfg evs initial_state)))"
    by (auto simp: ingested_def initial_state_def)
next
  fix s env ev
  have "ingested s (snd (on_message cfg env ev s))" by (rule ingested_on_message)
  then show "\<exists>new. trace (snd (on_message cfg env ev s)) = trace s @ new
         \<and> INDEXED_FILE_IDS (snd (on_message cfg env ev s))
             = INDEXED_FILE_IDS s \<union> set (indexed_ok new)"
    unfolding ingested_def by blast
next
  fix s0 s env ev
  assume "\<not> truthy (ev_bot_id ev) \<and> ev_subtype ev = Some ''file_share''
         \<and> resolve_bot_id env s0 = (Inr (), s)
         \<and> \<not> is_delete_cmd (mention (BOT_USER_ID s)) (raw_text ev) (lower (raw_text ev))
         \<and> \<not> is_issue_cmd (mention (BOT_USER_ID s)) (raw_text ev) (lower (raw_text ev))
         \<and> (\<forall>f\<in>set (ev_files ev). truthy f \<longrightarrow> or_empty f \<in> INDEXED_FILE_IDS s)"
  then show "on_message cfg env ev s0 = (Inr (), s)"
    by (intro on_message_all_recorded) simp_all
qed

lemma first_upload:
  "on_message sample_cfg sample_env (file_share [''F1'']) initial_state
     = (Inr (), after_first_upload)"
  by (simp add: eval_defs after_first_upload_def)

theorem file_ids_indexed_once_witness:
  "run_events sample_cfg [(sample_env, file_share [''F1'']), (sample_env, file_share [''F1''])]
     initial_state = after_first_upload
   \<and> distinct (indexed_ok (trace after_first_upload))
   \<and> INDEXED_FILE_IDS after_first_upload = set (indexed_ok (trace after_first_upload))"
proof -
  let ?e = "file_share [''F1'']"
  have "\<not> truthy (ev_bot_id ?e) \<and> ev_subtype ?e = Some ''file_share''
         \<and> resolve_bot_id sample_env after_first_upload = (Inr (), after_first_upload)
         \<and> \<not> is_delete_cmd (mention (BOT_USER_ID after_first_upload)) (raw_text ?e)
               (lower (raw_text ?e))
         \<and> \<not> is_issue_cmd (mention (BOT_USER_ID after_first_upload)) (raw_text ?e)
               (lower (raw_text ?e))
         \<and> (\<forall>f\<in>set (ev_files ?e). truthy f \<longrightarrow> or_empty f \<in> INDEXED_FILE_IDS after_first_upload)"
    by (simp add: eval_defs after_first_upload_def)
  with file_ids_indexed_once [of sample_cfg "[(sample_env, ?e), (sample_env, ?e)]"]
  have second: "on_message sample_cfg sample_env ?e after_first_upload = (Inr (), after_first_upload)"
    by blast
  have run: "run_events sample_cfg [(sample_env, ?e), (sample_env, ?e)] initial_state
               = after_first_upload"
    by (simp add: first_upload second)
  from file_ids_indexed_once [of sample_cfg "[(sample_env, ?e), (sample_env, ?e)]"]
  show ?thesis
    unfolding run by simp
qed

text \<open>
  The claim C4 as stated bounds the submissions, not the successes: when the indexing of
  \<open>F1\<close> raises, the id is not recorded, and the next share of \<open>F1\<close> submits it again.
\<close>

theorem resubmitted_after_failure:
  "\<not> distinct (index_submissions (trace (run_events sample_cfg
        [(sample_env\<lparr>index_slack_file_bytes := (\<lambda>_ _ _ _. Inl (Raised ''index down''))\<rparr>,
          file_share [''F1'']),
         (sample_env, file_share [''F1''])]
        initial_state)))"
  by (simp add: eval_defs)


section \<open>The mention-prefixed form of the issue command\<close>

text \<open>
  Line 102 compares the lower-cased text with the mention token followed by \<open>issue\<close>.
  The comparison can only succeed when lower-casing leaves the mention token as it is,
  that is when the bot id has no capital letter.
\<close>

lemma lower_char_fixed:
  "\<not> ((65 \<le> (of_char c :: nat) \<and> (of_char c :: nat) \<le> 90)
           \<or> (192 \<le> (of_char c :: nat) \<and> (of_char c :: nat) \<le> 214)
           \<or> (216 \<le> (of_char c :: nat) \<and> (of_char c :: nat) \<le> 222))
   \<Longrightarrow> lower_char c = c"
  by (auto simp: lower_char_def Let_def)

lemma lower_char_idem: "lower_char (lower_char c) = lower_char c"
proof (cases "(65 \<le> (of_char c :: nat) \<and> (of_char c :: nat) \<le> 90)
           \<or> (192 \<le> (of_char c :: nat) \<and> (of_char c :: nat) \<le> 214)
           \<or> (216 \<le> (of_char c :: nat) \<and> (of_char c :: nat) \<le> 222)")
  case False
  then have "lower_char c = c" by (rule lower_char_fixed)
  then show ?thesis by simp
next
  case True
  then have v: "(of_char (lower_char c) :: nat) = of_char c + 32"
    by (simp add: of_char_lower_char)
  have "\<not> ((65 \<le> (of_char (lower_char c) :: nat) \<and> (of_char (lower_char c) :: nat) \<le> 90)
           \<or> (192 \<le> (of_char (lower_char c) :: nat) \<and> (of_char (lower_char c) :: nat) \<le> 214)
           \<or> (216 \<le> (of_char (lower_char c) :: nat) \<and> (of_char (lower_char c) :: nat) \<le> 222))"
    unfolding v using True by arith
  then show ?thesis by (rule lower_char_fixed)
qed

lemma lower_idem: "lower (lower s) = lower s"
  by (simp add: lower_def lower_char_idem)

lemma mention_issue_needs_lower_case_id:
  assumes "startswith (lower raw) (mention b @ '' issue'')"
  shows "lower (mention b) = mention b"
proof -
  let ?n = "length (mention b @ '' issue'')"
  from assms have "take ?n (lower raw) = mention b @ '' issue''"
    by (simp only: startswith_def)
  then have e: "mention b @ '' issue'' = lower (take ?n raw)"
    by (simp only: lower_def take_map)
  have "lower (mention b @ '' issue'') = lower (lower (take ?n raw))"
    by (rule arg_cong [where f = lower, OF e])
  also have "\<dots> = lower (take ?n raw)" by (rule lower_idem)
  also have "\<dots> = mention b @ '' issue''" by (rule e [symmetric])
  finally have "lower (mention b) @ lower '' issue'' = mention b @ '' issue''"
    by (simp only: lower_def map_append)
  then show ?thesis by (simp add: lower_def)
qed

end
